theory Spec2Isabelle
  imports Complex_Main "HOL-Library.Word"
begin

section \<open>Constants and vector arithmetic\<close>

text \<open>
  The embedding follows \<^verbatim>\<open>src/Pong/main.cpp\<close>. In the model of the game a C++ \<^verbatim>\<open>float\<close> is
  read as a real number: rounding, infinities and NaN are outside that model. The predictor
  and the paddle update are embedded a second time in binary32 arithmetic, further down, for
  the properties that rounding and overflow decide. Drawing, text layout and
  audio calls do not touch the game state and are left out. The calls into raylib whose
  results the game logic reads (\<^verbatim>\<open>IsKeyDown\<close>, \<^verbatim>\<open>IsKeyPressed\<close>, \<^verbatim>\<open>GetFrameTime\<close>,
  \<^verbatim>\<open>GetRandomValue\<close>, \<^verbatim>\<open>CheckCollisionCircleRec\<close>) are inputs of the model.
\<close>

definition screenWidth :: int where
  "screenWidth = 800"

definition screenHeight :: int where
  "screenHeight = 450"

text \<open>The enum \<^verbatim>\<open>Game::VersorDirection\<close>.\<close>

definition UP :: int where "UP = - 1"
definition DOWN :: int where "DOWN = 1"
definition LEFT :: int where "LEFT = - 1"
definition RIGHT :: int where "RIGHT = 1"
definition NONE :: int where "NONE = 0"

text \<open>The key codes of \<^verbatim>\<open>raylib.h\<close> that the game reads.\<close>

definition KEY_DOWN :: int where "KEY_DOWN = 264"
definition KEY_UP :: int where "KEY_UP = 265"

record Vector2 =
  vec_x :: real
  vec_y :: real

record Rectangle =
  rec_x :: real
  rec_y :: real
  rec_width :: real
  rec_height :: real

definition vec_scale :: "Vector2 \<Rightarrow> real \<Rightarrow> Vector2" where
  \<comment> \<open>\<^verbatim>\<open>operator*(Vector2, float)\<close>\<close>
  "vec_scale v s = \<lparr>vec_x = vec_x v * s, vec_y = vec_y v * s\<rparr>"

definition vec_add :: "Vector2 \<Rightarrow> Vector2 \<Rightarrow> Vector2" where
  \<comment> \<open>\<^verbatim>\<open>operator+\<close> and \<^verbatim>\<open>operator+=\<close>\<close>
  "vec_add a b = \<lparr>vec_x = vec_x a + vec_x b, vec_y = vec_y a + vec_y b\<rparr>"

definition vec_sub :: "Vector2 \<Rightarrow> Vector2 \<Rightarrow> Vector2" where
  \<comment> \<open>\<^verbatim>\<open>operator-\<close>\<close>
  "vec_sub a b = \<lparr>vec_x = vec_x a - vec_x b, vec_y = vec_y a - vec_y b\<rparr>"

definition truncf :: "real \<Rightarrow> int" where
  \<comment> \<open>conversion of a float to \<^verbatim>\<open>int\<close>: the fraction is dropped (towards zero)\<close>
  "truncf v = (if 0 \<le> v then \<lfloor>v\<rfloor> else \<lceil>v\<rceil>)"

definition fmod :: "real \<Rightarrow> real \<Rightarrow> real" where
  \<comment> \<open>\<^verbatim>\<open>fmod\<close> of \<^verbatim>\<open><cmath>\<close>: the remainder of the division truncated towards zero,
      so the result has the sign of the dividend\<close>
  "fmod a b = a - real_of_int (truncf (a / b)) * b"

definition normaliseVersor :: "Vector2 \<Rightarrow> Vector2" where
  "normaliseVersor v =
     (let len = sqrt (vec_x v * vec_x v + vec_y v * vec_y v)
      in if len = 0 then \<lparr>vec_x = 0, vec_y = 0\<rparr>
         else \<lparr>vec_x = vec_x v / len, vec_y = vec_y v / len\<rparr>)"

section \<open>Game objects\<close>

record GameObject =
  position :: Vector2
  versor :: Vector2
  speed :: real

record Paddle = GameObject +
  size :: Vector2

record Ball = GameObject +
  radius :: real

definition predictBallY :: "Ball \<Rightarrow> real \<Rightarrow> real" where
  "predictBallY b targetX =
     (let dx = targetX - vec_x (position b);
          dy = dx * (vec_y (versor b) / vec_x (versor b));
          y_raw = vec_y (position b) + dy;
          period = real_of_int (2 * screenHeight);
          y_mod = fmod y_raw period;
          y_mod = (if y_mod < 0 then y_mod + period else y_mod)
      in if y_mod \<le> real_of_int screenHeight then y_mod else period - y_mod)"

definition getCenter :: "Paddle \<Rightarrow> Vector2" where
  "getCenter p =
     \<lparr>vec_x = vec_x (position p) + vec_x (size p) / 2,
      vec_y = vec_y (position p) + vec_y (size p) / 2\<rparr>"

definition toRectangle :: "Paddle \<Rightarrow> Rectangle" where
  "toRectangle p =
     \<lparr>rec_x = vec_x (position p), rec_y = vec_y (position p),
      rec_width = vec_x (size p), rec_height = vec_y (size p)\<rparr>"

definition pointTowards :: "Vector2 \<Rightarrow> Paddle \<Rightarrow> Paddle" where
  \<comment> \<open>\<^verbatim>\<open>GameObject::pointTowards\<close>; the game calls it on the right paddle only\<close>
  "pointTowards target obj =
     (let direction = vec_sub target (position obj)
      in obj\<lparr>versor := normaliseVersor direction\<rparr>)"

definition Paddle_update :: "real \<Rightarrow> Paddle \<Rightarrow> Paddle" where
  "Paddle_update deltaTime p =
     (let delta = vec_scale (vec_scale (normaliseVersor (versor p)) (speed p)) deltaTime;
          newPosition = vec_add (position p) delta;
          p1 = (if vec_y newPosition \<ge> 0
                   \<and> vec_y newPosition + vec_y (size p) \<le> real_of_int screenHeight
                then p\<lparr>position := (position p)\<lparr>vec_y := vec_y newPosition\<rparr>\<rparr>
                else p)
      in if vec_x newPosition \<ge> 0
            \<and> vec_x newPosition + vec_x (size p) \<le> real_of_int screenWidth
         then p1\<lparr>position := (position p1)\<lparr>vec_x := vec_x newPosition\<rparr>\<rparr>
         else p1)"

definition Ball_update :: "real \<Rightarrow> Ball \<Rightarrow> Ball" where
  \<comment> \<open>\<^verbatim>\<open>GameObject::update\<close>, which the ball inherits\<close>
  "Ball_update deltaTime b =
     b\<lparr>position :=
         vec_add (position b)
           (vec_scale (vec_scale (normaliseVersor (versor b)) (speed b)) deltaTime)\<rparr>"

section \<open>The game\<close>

text \<open>
  The fields of \<^verbatim>\<open>Game\<close> and \<^verbatim>\<open>ScoreText\<close> that the game logic reads, and the function-local
  statics: \<^verbatim>\<open>activeKey\<close> of \<^verbatim>\<open>getCurrentVerticalKey\<close>, \<^verbatim>\<open>predictedY\<close> and
  \<^verbatim>\<open>lastFrameBallDirX\<close> of \<^verbatim>\<open>handleAIPaddleMovement\<close> (\<open>None\<close> until the first call
  initialises them) and \<^verbatim>\<open>currentSpeedRecord\<close> of \<^verbatim>\<open>getSpeedRecord\<close>. The scores are C++
  \<^verbatim>\<open>int\<close>s, kept as 32-bit words and read as signed numbers with \<open>sint\<close>.
\<close>

record Game =
  leftPaddle :: Paddle
  rightPaddle :: Paddle
  ball :: Ball
  scoreLeft :: "32 word"
  scoreRight :: "32 word"
  activeKey :: int
  aiStatics :: "(real \<times> int) option"
  currentSpeedRecord :: int

text \<open>What one pass of the main loop reads from raylib.\<close>

record FrameInput =
  deltaTime :: real  \<comment> \<open>\<^verbatim>\<open>GetFrameTime()\<close>\<close>
  upHeld :: bool  \<comment> \<open>\<^verbatim>\<open>IsKeyDown(KEY_UP)\<close>\<close>
  downHeld :: bool  \<comment> \<open>\<^verbatim>\<open>IsKeyDown(KEY_DOWN)\<close>\<close>
  rPressed :: bool  \<comment> \<open>\<^verbatim>\<open>IsKeyPressed(KEY_R)\<close>\<close>
  rand_resetGame :: int  \<comment> \<open>\<^verbatim>\<open>GetRandomValue(-1000, 1000)\<close> drawn by \<^verbatim>\<open>resetGame\<close>\<close>
  rand_resetRound :: int  \<comment> \<open>\<^verbatim>\<open>GetRandomValue(-1000, 1000)\<close> drawn by \<^verbatim>\<open>resetRound\<close>\<close>

type_synonym CollisionTest = "Vector2 \<Rightarrow> real \<Rightarrow> Rectangle \<Rightarrow> bool"

definition randomValidVersor :: "int \<Rightarrow> real" where
  \<comment> \<open>the argument is the value \<^verbatim>\<open>GetRandomValue(-1000, 1000)\<close> returned\<close>
  "randomValidVersor r =
     (let versor = real_of_int r / 1000
      in if versor = 0 then - 1 else versor)"

definition getCurrentVerticalKey :: "bool \<Rightarrow> bool \<Rightarrow> int \<Rightarrow> int \<times> int" where
  \<comment> \<open>the returned key, and the static \<^verbatim>\<open>activeKey\<close> after the call\<close>
  "getCurrentVerticalKey upPressed downPressed active =
     (if \<not> upPressed \<and> \<not> downPressed then (- 1, - 1)
      else if upPressed \<noteq> downPressed then
        (let k = (if upPressed then KEY_UP else KEY_DOWN) in (k, k))
      else if upPressed \<and> downPressed then
        (if active = KEY_UP then KEY_DOWN else KEY_UP, active)
      else (active, active))"

definition ai_prediction :: "Game \<Rightarrow> real" where
  \<comment> \<open>the expression that \<^verbatim>\<open>handleAIPaddleMovement\<close> assigns to \<^verbatim>\<open>predictedY\<close> in three places\<close>
  "ai_prediction g =
     predictBallY (ball g)
       (vec_x (position (rightPaddle g)) + vec_x (size (rightPaddle g)) / 2)
     - vec_y (size (rightPaddle g)) / 2"

definition handleAIPaddleMovement :: "bool \<Rightarrow> Game \<Rightarrow> Game" where
  "handleAIPaddleMovement resetFunction g =
     (let (predictedY, lastFrameBallDirX) =
            (case aiStatics g of None \<Rightarrow> (ai_prediction g, LEFT) | Some st \<Rightarrow> st)
      in if resetFunction then
           g\<lparr>aiStatics := Some (ai_prediction g, truncf (vec_x (versor (ball g))))\<rparr>
         else
           (let predictedY =
                  (if lastFrameBallDirX = LEFT \<and> vec_x (versor (ball g)) = real_of_int RIGHT
                   then ai_prediction g else predictedY);
                rp = rightPaddle g;
                rp' =
                  (if vec_x (versor (ball g)) = real_of_int LEFT then
                     pointTowards
                       \<lparr>vec_x = vec_x (position rp),
                        vec_y = real_of_int screenHeight / 2 - vec_y (size rp) / 2\<rparr> rp
                   else pointTowards \<lparr>vec_x = vec_x (position rp), vec_y = predictedY\<rparr> rp);
                lastFrameBallDirX =
                  (if vec_x (versor (ball g)) \<noteq> real_of_int LEFT then RIGHT else LEFT)
            in g\<lparr>rightPaddle := rp', aiStatics := Some (predictedY, lastFrameBallDirX)\<rparr>))"

definition serveBall :: "int \<Rightarrow> Game \<Rightarrow> Game" where
  \<comment> \<open>the three assignments to the ball that \<^verbatim>\<open>resetRound\<close> and \<^verbatim>\<open>resetGame\<close> share\<close>
  "serveBall r g =
     g\<lparr>ball := (ball g)
         \<lparr>position :=
            \<lparr>vec_x = real_of_int screenWidth / 2, vec_y = real_of_int screenHeight / 2\<rparr>,
          versor := \<lparr>vec_x = real_of_int RIGHT, vec_y = randomValidVersor r\<rparr>,
          speed := 400\<rparr>\<rparr>"

definition resetRound :: "int \<Rightarrow> Game \<Rightarrow> Game" where
  "resetRound r g = handleAIPaddleMovement True (serveBall r g)"

definition getSpeedRecord :: "bool \<Rightarrow> Game \<Rightarrow> Game" where
  \<comment> \<open>the value returned is \<open>currentSpeedRecord\<close> of the result\<close>
  "getSpeedRecord resetRecord g =
     (if resetRecord then g\<lparr>currentSpeedRecord := 0\<rparr>
      else if speed (ball g) > real_of_int (currentSpeedRecord g)
      then g\<lparr>currentSpeedRecord := truncf (speed (ball g))\<rparr>
      else g)"

definition resetScore :: "Game \<Rightarrow> Game" where
  "resetScore g = g\<lparr>scoreLeft := 0, scoreRight := 0\<rparr>"

definition incrementScore :: "bool \<Rightarrow> Game \<Rightarrow> Game" where
  "incrementScore isLeft g =
     (if isLeft then g\<lparr>scoreLeft := scoreLeft g + 1\<rparr> else g\<lparr>scoreRight := scoreRight g + 1\<rparr>)"

definition resetGame :: "int \<Rightarrow> Game \<Rightarrow> Game" where
  "resetGame r g =
     (let g1 = g\<lparr>leftPaddle := (leftPaddle g)
                  \<lparr>position := \<lparr>vec_x = 50, vec_y = real_of_int screenHeight / 2 - 50\<rparr>\<rparr>\<rparr>;
          g2 = g1\<lparr>rightPaddle := (rightPaddle g1)
                  \<lparr>position := \<lparr>vec_x = real_of_int screenWidth - 50,
                                vec_y = real_of_int screenHeight / 2 - 50\<rparr>\<rparr>\<rparr>;
          g3 = serveBall r g2;
          g4 = resetScore g3;
          g5 = getSpeedRecord True g4
      in handleAIPaddleMovement True g5)"

definition handlePaddleBallCollision :: "CollisionTest \<Rightarrow> Paddle \<Rightarrow> Game \<Rightarrow> Game" where
  "handlePaddleBallCollision coll paddle g =
     (if coll (position (ball g)) (radius (ball g)) (toRectangle paddle) then
        (let b1 = (ball g)\<lparr>versor := (versor (ball g))\<lparr>vec_x := vec_x (versor (ball g)) * (- 1)\<rparr>\<rparr>;
             paddleCenter = getCenter paddle;
             b2 = b1\<lparr>versor := (versor b1)
                    \<lparr>vec_y := (vec_y (position b1) - vec_y paddleCenter) / (vec_y (size paddle) / 2)\<rparr>\<rparr>;
             b3 = b2\<lparr>speed := speed b2 + 20 * (speed b2 / 400) * \<bar>vec_y (versor b2)\<bar>\<rparr>
         in g\<lparr>ball := b3\<rparr>)
      else g)"

definition handleWallBallCollision :: "Game \<Rightarrow> Game" where
  "handleWallBallCollision g =
     (if vec_y (position (ball g)) - radius (ball g) \<le> 0
         \<or> vec_y (position (ball g)) + radius (ball g) \<ge> real_of_int screenHeight
      then g\<lparr>ball := (ball g)\<lparr>versor := (versor (ball g))\<lparr>vec_y := vec_y (versor (ball g)) * (- 1)\<rparr>\<rparr>\<rparr>
      else g)"

definition handlePointScoring :: "int \<Rightarrow> Game \<Rightarrow> Game" where
  \<comment> \<open>the first argument is the draw of the round reset, if one happens\<close>
  "handlePointScoring r g =
     (if vec_x (position (ball g)) + radius (ball g) \<ge> real_of_int screenWidth then
        resetRound r (incrementScore True g)
      else if vec_x (position (ball g)) - radius (ball g) \<le> 0 then
        resetRound r (incrementScore False g)
      else g)"

definition init :: "int \<Rightarrow> Game" where
  \<comment> \<open>\<^verbatim>\<open>Game::init\<close> on a freshly constructed \<^verbatim>\<open>Game\<close>; the argument is the draw of the serve\<close>
  "init r =
     \<lparr>leftPaddle =
        \<lparr>position = \<lparr>vec_x = 50, vec_y = real_of_int screenHeight / 2 - 50\<rparr>,
         versor = \<lparr>vec_x = real_of_int NONE, vec_y = real_of_int NONE\<rparr>,
         speed = 300, size = \<lparr>vec_x = 10, vec_y = 100\<rparr>\<rparr>,
      rightPaddle =
        \<lparr>position = \<lparr>vec_x = real_of_int screenWidth - 50,
                     vec_y = real_of_int screenHeight / 2 - 50\<rparr>,
         versor = \<lparr>vec_x = real_of_int NONE, vec_y = real_of_int NONE\<rparr>,
         speed = 300, size = \<lparr>vec_x = 10, vec_y = 100\<rparr>\<rparr>,
      ball =
        \<lparr>position = \<lparr>vec_x = real_of_int screenWidth / 2, vec_y = real_of_int screenHeight / 2\<rparr>,
         versor = \<lparr>vec_x = real_of_int RIGHT, vec_y = randomValidVersor r\<rparr>,
         speed = 400, radius = 7\<rparr>,
      scoreLeft = 0, scoreRight = 0, activeKey = - 1, aiStatics = None,
      currentSpeedRecord = 0\<rparr>"

definition readInput :: "FrameInput \<Rightarrow> Game \<Rightarrow> Game" where
  "readInput inp g =
     (let (key, active) = getCurrentVerticalKey (upHeld inp) (downHeld inp) (activeKey g);
          g1 = g\<lparr>activeKey := active\<rparr>;
          lp = leftPaddle g1;
          g2 = g1\<lparr>leftPaddle :=
                   (if key = KEY_UP then lp\<lparr>versor := (versor lp)\<lparr>vec_y := real_of_int UP\<rparr>\<rparr>
                    else if key = KEY_DOWN then
                      lp\<lparr>versor := (versor lp)\<lparr>vec_y := real_of_int DOWN\<rparr>\<rparr>
                    else lp\<lparr>versor := \<lparr>vec_x = real_of_int NONE, vec_y = real_of_int NONE\<rparr>\<rparr>)\<rparr>
      in if rPressed inp then resetGame (rand_resetGame inp) g2 else g2)"

definition update :: "CollisionTest \<Rightarrow> FrameInput \<Rightarrow> Game \<Rightarrow> Game" where
  "update coll inp g =
     (let g1 = handlePaddleBallCollision coll (leftPaddle g) g;
          g2 = handlePaddleBallCollision coll (rightPaddle g1) g1;
          g3 = handleWallBallCollision g2;
          g4 = handlePointScoring (rand_resetRound inp) g3;
          g5 = handleAIPaddleMovement False g4;
          g6 = g5\<lparr>leftPaddle := Paddle_update (deltaTime inp) (leftPaddle g5)\<rparr>;
          g7 = g6\<lparr>rightPaddle := Paddle_update (deltaTime inp) (rightPaddle g6)\<rparr>;
          g8 = g7\<lparr>ball := Ball_update (deltaTime inp) (ball g7)\<rparr>
      in getSpeedRecord False g8)"

definition frame :: "CollisionTest \<Rightarrow> FrameInput \<Rightarrow> Game \<Rightarrow> Game" where
  \<comment> \<open>one pass of the loop of \<^verbatim>\<open>main\<close>\<close>
  "frame coll inp g = update coll inp (readInput inp g)"

fun run :: "CollisionTest \<Rightarrow> FrameInput list \<Rightarrow> Game \<Rightarrow> Game" where
  "run coll [] g = g"
| "run coll (inp # inps) g = run coll inps (frame coll inp g)"

text \<open>
  The states the program can pass through: the state after \<^verbatim>\<open>init\<close>, and from there the
  state after each statement of the methods of \<^verbatim>\<open>Game\<close>, with any input and any outcome of
  the collision test. The rules are finer than a frame, so that the set holds the states in
  which \<^verbatim>\<open>handleAIPaddleMovement\<close> evaluates \<^verbatim>\<open>predictBallY\<close>, in the middle of a frame
  and in the middle of a reset.
\<close>

inductive reachable :: "CollisionTest \<Rightarrow> Game \<Rightarrow> bool" for coll :: CollisionTest where
  reach_init: "reachable coll (init r)"
| reach_readInput: "reachable coll g \<Longrightarrow> reachable coll (readInput inp g)"
| reach_paddle_hit: "reachable coll g \<Longrightarrow> reachable coll (handlePaddleBallCollision coll p g)"
| reach_wall_hit: "reachable coll g \<Longrightarrow> reachable coll (handleWallBallCollision g)"
| reach_scoring: "reachable coll g \<Longrightarrow> reachable coll (handlePointScoring r g)"
| reach_ai: "reachable coll g \<Longrightarrow> reachable coll (handleAIPaddleMovement f g)"
| reach_left_update:
    "reachable coll g \<Longrightarrow> reachable coll (g\<lparr>leftPaddle := Paddle_update dt (leftPaddle g)\<rparr>)"
| reach_right_update:
    "reachable coll g \<Longrightarrow> reachable coll (g\<lparr>rightPaddle := Paddle_update dt (rightPaddle g)\<rparr>)"
| reach_ball_update: "reachable coll g \<Longrightarrow> reachable coll (g\<lparr>ball := Ball_update dt (ball g)\<rparr>)"
| reach_speed_record: "reachable coll g \<Longrightarrow> reachable coll (getSpeedRecord f g)"
| reach_increment: "reachable coll g \<Longrightarrow> reachable coll (incrementScore isLeft g)"
| reach_resetScore: "reachable coll g \<Longrightarrow> reachable coll (resetScore g)"
| reach_serve: "reachable coll g \<Longrightarrow> reachable coll (serveBall r g)"
| reach_left_home:
    "reachable coll g \<Longrightarrow>
     reachable coll (g\<lparr>leftPaddle := (leftPaddle g)
        \<lparr>position := \<lparr>vec_x = 50, vec_y = real_of_int screenHeight / 2 - 50\<rparr>\<rparr>\<rparr>)"
| reach_right_home:
    "reachable coll g \<Longrightarrow>
     reachable coll (g\<lparr>rightPaddle := (rightPaddle g)
        \<lparr>position := \<lparr>vec_x = real_of_int screenWidth - 50,
                      vec_y = real_of_int screenHeight / 2 - 50\<rparr>\<rparr>\<rparr>)"

section \<open>Notions of the specification\<close>

text \<open>The remainder of a real division that is never negative: \<open>a mod p\<close> in \<open>[0, p)\<close>.\<close>

definition nonneg_mod :: "real \<Rightarrow> real \<Rightarrow> real" where
  "nonneg_mod a p = a - p * real_of_int \<lfloor>a / p\<rfloor>"

text \<open>
  The predictor as the specification words it: the straight line to \<open>targetX\<close>, folded into
  a triangle wave of period \<open>2 * screenHeight\<close>.
\<close>

definition spec_predictBallY :: "Ball \<Rightarrow> real \<Rightarrow> real" where
  "spec_predictBallY b targetX =
     (let y_raw = vec_y (position b)
                  + (targetX - vec_x (position b)) * (vec_y (versor b) / vec_x (versor b));
          period = 2 * real_of_int screenHeight;
          v = nonneg_mod y_raw period
      in if v > real_of_int screenHeight then period - v else v)"

text \<open>
  The literal simulation of the specification: the centre of the ball moves from \<open>pos\<close> along
  \<open>dir\<close> until it is on the line \<open>x = targetX\<close>; when a wall \<open>y = 0\<close> or
  \<open>y = screenHeight\<close> comes first, the ball is moved onto the wall and the vertical
  component of its direction changes sign. Each wall bounce uses one unit of fuel; \<open>None\<close>
  says that the fuel did not suffice.
\<close>

fun simulate_bounces :: "nat \<Rightarrow> Vector2 \<Rightarrow> Vector2 \<Rightarrow> real \<Rightarrow> real option" where
  "simulate_bounces 0 pos dir targetX = None"
| "simulate_bounces (Suc n) pos dir targetX =
     (let t = (targetX - vec_x pos) / vec_x dir
      in if 0 < vec_y dir \<and> real_of_int screenHeight < vec_y pos + vec_y dir * t then
           (let tw = (real_of_int screenHeight - vec_y pos) / vec_y dir
            in simulate_bounces n
                 \<lparr>vec_x = vec_x pos + vec_x dir * tw, vec_y = real_of_int screenHeight\<rparr>
                 (dir\<lparr>vec_y := - vec_y dir\<rparr>) targetX)
         else if vec_y dir < 0 \<and> vec_y pos + vec_y dir * t < 0 then
           (let tw = (0 - vec_y pos) / vec_y dir
            in simulate_bounces n
                 \<lparr>vec_x = vec_x pos + vec_x dir * tw, vec_y = 0\<rparr>
                 (dir\<lparr>vec_y := - vec_y dir\<rparr>) targetX)
         else Some (vec_y pos + vec_y dir * t))"

definition bounce_fuel :: "Ball \<Rightarrow> real \<Rightarrow> nat" where
  \<comment> \<open>more than the number of walls the straight line to \<open>targetX\<close> crosses\<close>
  "bounce_fuel b targetX =
     nat \<lceil>\<bar>vec_y (versor b) * ((targetX - vec_x (position b)) / vec_x (versor b))\<bar>
          / real_of_int screenHeight\<rceil> + 2"

text \<open>The ball has crossed a side of the screen: the two tests of \<^verbatim>\<open>handlePointScoring\<close>.\<close>

definition ball_out_right :: "Game \<Rightarrow> bool" where
  "ball_out_right g = (vec_x (position (ball g)) + radius (ball g) \<ge> real_of_int screenWidth)"

definition ball_out_left :: "Game \<Rightarrow> bool" where
  "ball_out_left g = (vec_x (position (ball g)) - radius (ball g) \<le> 0)"

text \<open>A frame in which a reset happens: a full reset on R, or a round reset on a score.\<close>

definition frame_resets :: "CollisionTest \<Rightarrow> FrameInput \<Rightarrow> Game \<Rightarrow> bool" where
  "frame_resets coll inp g =
     (let g0 = readInput inp g;
          g1 = handlePaddleBallCollision coll (leftPaddle g0) g0;
          g2 = handlePaddleBallCollision coll (rightPaddle g1) g1;
          g3 = handleWallBallCollision g2
      in rPressed inp \<or> ball_out_right g3 \<or> ball_out_left g3)"

text \<open>A sequence of frames one of which has a reset.\<close>

fun run_resets :: "CollisionTest \<Rightarrow> FrameInput list \<Rightarrow> Game \<Rightarrow> bool" where
  "run_resets coll [] g = False"
| "run_resets coll (inp # inps) g =
     (frame_resets coll inp g \<or> run_resets coll inps (frame coll inp g))"

text \<open>A frame in which the collision test holds for a paddle.\<close>

definition frame_hits :: "CollisionTest \<Rightarrow> FrameInput \<Rightarrow> Game \<Rightarrow> bool" where
  "frame_hits coll inp g =
     (let g0 = readInput inp g;
          g1 = handlePaddleBallCollision coll (leftPaddle g0) g0
      in coll (position (ball g0)) (radius (ball g0)) (toRectangle (leftPaddle g0))
         \<or> coll (position (ball g1)) (radius (ball g1)) (toRectangle (rightPaddle g1)))"

text \<open>
  The input resolver over a sequence of frames, each frame the pair (up held, down held):
  the keys it returns, from the value \<open>active\<close> of its static.
\<close>

fun resolved_keys :: "int \<Rightarrow> (bool \<times> bool) list \<Rightarrow> int list" where
  "resolved_keys active [] = []"
| "resolved_keys active (f # fs) =
     (let (k, active') = getCurrentVerticalKey (fst f) (snd f) active
      in k # resolved_keys active' fs)"

fun active_after :: "int \<Rightarrow> (bool \<times> bool) list \<Rightarrow> int" where
  "active_after active [] = active"
| "active_after active (f # fs) =
     active_after (snd (getCurrentVerticalKey (fst f) (snd f) active)) fs"

text \<open>For how many frames, counted back from the last one, a key has been held without a gap.\<close>

definition held_run :: "bool list \<Rightarrow> nat" where
  "held_run hs = length (takeWhile (\<lambda>h. h) (rev hs))"

text \<open>The triangle wave of period \<open>2 * screenHeight\<close> that is the identity on the screen.\<close>

definition tri_fold :: "real \<Rightarrow> real" where
  "tri_fold u =
     (let v = nonneg_mod u (2 * real_of_int screenHeight)
      in if v \<le> real_of_int screenHeight then v else 2 * real_of_int screenHeight - v)"

section \<open>Binary32 arithmetic\<close>

text \<open>
  A \<^verbatim>\<open>float\<close> as the machine has it: a finite value, an infinity or NaN. Every operation
  gives the exact result rounded to binary32, to the nearest value with ties to the even
  significand, as C++ does on a target that evaluates \<^verbatim>\<open>float\<close> expressions in \<^verbatim>\<open>float\<close>
  and does not fuse a multiplication with the addition that follows it.
  The sign of a zero is not kept: the two zeros compare equal and differ only in the sign
  of the infinity that a division by them gives, on which no result below depends.
\<close>

datatype f32 = Finite real | PInf | NInf | NaN

text \<open>
  The binary exponent of a magnitude, kept within the exponents of binary32: the largest
  \<open>e\<close> in \<open>[-125, 127]\<close> with \<open>2^e \<le> a\<close>, and \<open>-126\<close>, the exponent of the subnormal values,
  when there is none.
\<close>

definition bexp :: "real \<Rightarrow> int" where
  "bexp a = Max (insert (- 126) {e \<in> {- 125..127}. 2 powi e \<le> a})"

definition round_half_even :: "real \<Rightarrow> int" where
  "round_half_even m =
     (let f = \<lfloor>m\<rfloor>; d = m - real_of_int f
      in if d < 1 / 2 then f else if 1 / 2 < d then f + 1 else if even f then f else f + 1)"

text \<open>
  The spacing of the binary32 values around \<open>x\<close>, the multiple of the spacing nearest to
  \<open>x\<close>, and the rounding, which overflows to an infinity from \<open>2^128\<close> on.
\<close>

definition ulp32 :: "real \<Rightarrow> real" where
  "ulp32 x = 2 powi (bexp \<bar>x\<bar> - 23)"

definition nearest32 :: "real \<Rightarrow> real" where
  "nearest32 x = real_of_int (round_half_even (x / ulp32 x)) * ulp32 x"

definition round32 :: "real \<Rightarrow> f32" where
  "round32 x =
     (if 2 powi 128 \<le> \<bar>nearest32 x\<bar> then (if x < 0 then NInf else PInf)
      else Finite (nearest32 x))"

text \<open>The finite values of binary32: 24 bits of significand, exponents of the unit in the last
  place from \<open>-149\<close> to \<open>104\<close>.\<close>

definition is_f32 :: "real \<Rightarrow> bool" where
  "is_f32 r = (\<exists>n k. r = real_of_int n * 2 powi k \<and> \<bar>n\<bar> < 2 ^ 24 \<and> - 149 \<le> k \<and> k \<le> 104)"

fun f32_finite :: "f32 \<Rightarrow> bool" where
  "f32_finite (Finite a) = True"
| "f32_finite x = False"

text \<open>
  The operations: an operand NaN gives NaN, the infinities follow IEEE 754, and finite
  operands give the rounded exact result. \<^verbatim>\<open>fmod\<close> is exact on finite operands.
\<close>

fun f32_neg :: "f32 \<Rightarrow> f32" where
  "f32_neg (Finite a) = Finite (- a)"
| "f32_neg PInf = NInf"
| "f32_neg NInf = PInf"
| "f32_neg NaN = NaN"

fun is_neg :: "f32 \<Rightarrow> bool" where
  "is_neg (Finite a) = (a < 0)"
| "is_neg NInf = True"
| "is_neg PInf = False"
| "is_neg NaN = False"

fun f32_add :: "f32 \<Rightarrow> f32 \<Rightarrow> f32" where
  "f32_add NaN y = NaN"
| "f32_add x NaN = NaN"
| "f32_add (Finite a) (Finite b) = round32 (a + b)"
| "f32_add PInf NInf = NaN"
| "f32_add NInf PInf = NaN"
| "f32_add PInf y = PInf"
| "f32_add NInf y = NInf"
| "f32_add x PInf = PInf"
| "f32_add x NInf = NInf"

definition f32_sub :: "f32 \<Rightarrow> f32 \<Rightarrow> f32" where
  "f32_sub x y = f32_add x (f32_neg y)"

fun f32_mul :: "f32 \<Rightarrow> f32 \<Rightarrow> f32" where
  "f32_mul NaN y = NaN"
| "f32_mul x NaN = NaN"
| "f32_mul (Finite a) (Finite b) = round32 (a * b)"
| "f32_mul x y =
     (if x = Finite 0 \<or> y = Finite 0 then NaN
      else if is_neg x = is_neg y then PInf else NInf)"

fun f32_div :: "f32 \<Rightarrow> f32 \<Rightarrow> f32" where
  "f32_div NaN y = NaN"
| "f32_div x NaN = NaN"
| "f32_div (Finite a) (Finite b) =
     (if b = 0 then (if a = 0 then NaN else if a < 0 then NInf else PInf)
      else round32 (a / b))"
| "f32_div (Finite a) y = Finite 0"
| "f32_div x (Finite b) = (if is_neg x = (b < 0) then PInf else NInf)"
| "f32_div x y = NaN"

fun f32_sqrt :: "f32 \<Rightarrow> f32" where
  "f32_sqrt (Finite a) = (if a < 0 then NaN else round32 (sqrt a))"
| "f32_sqrt PInf = PInf"
| "f32_sqrt x = NaN"

fun f32_fmod :: "f32 \<Rightarrow> f32 \<Rightarrow> f32" where
  "f32_fmod (Finite a) (Finite b) = (if b = 0 then NaN else Finite (fmod a b))"
| "f32_fmod (Finite a) PInf = Finite a"
| "f32_fmod (Finite a) NInf = Finite a"
| "f32_fmod x y = NaN"

fun f32_le :: "f32 \<Rightarrow> f32 \<Rightarrow> bool" where
  "f32_le NaN y = False"
| "f32_le x NaN = False"
| "f32_le (Finite a) (Finite b) = (a \<le> b)"
| "f32_le NInf y = True"
| "f32_le x PInf = True"
| "f32_le x y = False"

fun f32_less :: "f32 \<Rightarrow> f32 \<Rightarrow> bool" where
  "f32_less NaN y = False"
| "f32_less x NaN = False"
| "f32_less (Finite a) (Finite b) = (a < b)"
| "f32_less PInf y = False"
| "f32_less x NInf = False"
| "f32_less x y = True"

fun f32_eq :: "f32 \<Rightarrow> f32 \<Rightarrow> bool" where
  "f32_eq NaN y = False"
| "f32_eq x NaN = False"
| "f32_eq x y = (x = y)"

definition f32_of_int :: "int \<Rightarrow> f32" where
  "f32_of_int n = round32 (real_of_int n)"

section \<open>The predictor and the paddle update in binary32\<close>

record Vector2_f32 =
  f32_x :: f32
  f32_y :: f32

record GameObject_f32 =
  position_f32 :: Vector2_f32
  versor_f32 :: Vector2_f32
  speed_f32 :: f32

record Paddle_f32 = GameObject_f32 +
  size_f32 :: Vector2_f32

record Ball_f32 = GameObject_f32 +
  radius_f32 :: f32

text \<open>The value of \<^verbatim>\<open>y_raw\<close> after line 423 of \<^verbatim>\<open>predictBallY\<close>, and the whole function.\<close>

definition y_raw_f32 :: "Ball_f32 \<Rightarrow> f32 \<Rightarrow> f32" where
  "y_raw_f32 b targetX =
     (let dx = f32_sub targetX (f32_x (position_f32 b));
          dy = f32_mul dx (f32_div (f32_y (versor_f32 b)) (f32_x (versor_f32 b)))
      in f32_add (f32_y (position_f32 b)) dy)"

definition predictBallY_f32 :: "Ball_f32 \<Rightarrow> f32 \<Rightarrow> f32" where
  "predictBallY_f32 b targetX =
     (let dx = f32_sub targetX (f32_x (position_f32 b));
          dy = f32_mul dx (f32_div (f32_y (versor_f32 b)) (f32_x (versor_f32 b)));
          y_raw = f32_add (f32_y (position_f32 b)) dy;
          period = f32_of_int (2 * screenHeight);
          y_mod = f32_fmod y_raw period;
          y_mod = (if f32_less y_mod (f32_of_int 0) then f32_add y_mod period else y_mod)
      in if f32_le y_mod (f32_of_int screenHeight) then y_mod else f32_sub period y_mod)"

definition vec_scale_f32 :: "Vector2_f32 \<Rightarrow> f32 \<Rightarrow> Vector2_f32" where
  "vec_scale_f32 v s = \<lparr>f32_x = f32_mul (f32_x v) s, f32_y = f32_mul (f32_y v) s\<rparr>"

definition vec_add_f32 :: "Vector2_f32 \<Rightarrow> Vector2_f32 \<Rightarrow> Vector2_f32" where
  "vec_add_f32 a b = \<lparr>f32_x = f32_add (f32_x a) (f32_x b), f32_y = f32_add (f32_y a) (f32_y b)\<rparr>"

definition normaliseVersor_f32 :: "Vector2_f32 \<Rightarrow> Vector2_f32" where
  "normaliseVersor_f32 v =
     (let len = f32_sqrt (f32_add (f32_mul (f32_x v) (f32_x v)) (f32_mul (f32_y v) (f32_y v)))
      in if f32_eq len (f32_of_int 0) then \<lparr>f32_x = Finite 0, f32_y = Finite 0\<rparr>
         else \<lparr>f32_x = f32_div (f32_x v) len, f32_y = f32_div (f32_y v) len\<rparr>)"

definition Paddle_update_f32 :: "f32 \<Rightarrow> Paddle_f32 \<Rightarrow> Paddle_f32" where
  "Paddle_update_f32 dt p =
     (let delta = vec_scale_f32
                    (vec_scale_f32 (normaliseVersor_f32 (versor_f32 p)) (speed_f32 p)) dt;
          newPosition = vec_add_f32 (position_f32 p) delta;
          p1 = (if f32_le (f32_of_int 0) (f32_y newPosition)
                   \<and> f32_le (f32_add (f32_y newPosition) (f32_y (size_f32 p)))
                        (f32_of_int screenHeight)
                then p\<lparr>position_f32 := (position_f32 p)\<lparr>f32_y := f32_y newPosition\<rparr>\<rparr>
                else p)
      in if f32_le (f32_of_int 0) (f32_x newPosition)
            \<and> f32_le (f32_add (f32_x newPosition) (f32_x (size_f32 p)))
                 (f32_of_int screenWidth)
         then p1\<lparr>position_f32 := (position_f32 p1)\<lparr>f32_x := f32_x newPosition\<rparr>\<rparr>
         else p1)"

text \<open>The position \<^verbatim>\<open>Paddle::update\<close> tries, and its test of one axis: the coordinate is not
  negative and the rounded sum of coordinate and size does not exceed the bound.\<close>

definition paddle_target_f32 :: "f32 \<Rightarrow> Paddle_f32 \<Rightarrow> Vector2_f32" where
  "paddle_target_f32 dt p =
     vec_add_f32 (position_f32 p)
       (vec_scale_f32 (vec_scale_f32 (normaliseVersor_f32 (versor_f32 p)) (speed_f32 p)) dt)"

definition axis_passes_f32 :: "f32 \<Rightarrow> f32 \<Rightarrow> int \<Rightarrow> bool" where
  "axis_passes_f32 c s bound =
     (f32_le (f32_of_int 0) c \<and> f32_le (f32_add c s) (f32_of_int bound))"

text \<open>The paddle rectangle lies in the screen as the test of \<^verbatim>\<open>Paddle::update\<close> evaluates it.\<close>

definition paddle_in_screen_f32 :: "Paddle_f32 \<Rightarrow> bool" where
  "paddle_in_screen_f32 p =
     (axis_passes_f32 (f32_x (position_f32 p)) (f32_x (size_f32 p)) screenWidth
      \<and> axis_passes_f32 (f32_y (position_f32 p)) (f32_y (size_f32 p)) screenHeight)"

text \<open>A ball and a paddle of the real-number model as binary32 objects.\<close>

definition ball_f32 :: "Ball \<Rightarrow> Ball_f32" where
  "ball_f32 b =
     \<lparr>position_f32 = \<lparr>f32_x = Finite (vec_x (position b)), f32_y = Finite (vec_y (position b))\<rparr>,
      versor_f32 = \<lparr>f32_x = Finite (vec_x (versor b)), f32_y = Finite (vec_y (versor b))\<rparr>,
      speed_f32 = Finite (speed b), radius_f32 = Finite (radius b)\<rparr>"

definition paddle_f32 :: "Paddle \<Rightarrow> Paddle_f32" where
  "paddle_f32 p =
     \<lparr>position_f32 = \<lparr>f32_x = Finite (vec_x (position p)), f32_y = Finite (vec_y (position p))\<rparr>,
      versor_f32 = \<lparr>f32_x = Finite (vec_x (versor p)), f32_y = Finite (vec_y (versor p))\<rparr>,
      speed_f32 = Finite (speed p),
      size_f32 = \<lparr>f32_x = Finite (vec_x (size p)), f32_y = Finite (vec_y (size p))\<rparr>\<rparr>"

section \<open>Example states\<close>

text \<open>
  A collision test to run the examples with: the circle's bounding box meets the rectangle.
  The theorems hold for every collision test.
\<close>

definition box_overlap :: CollisionTest where
  "box_overlap c r q =
     (\<bar>vec_x c - (rec_x q + rec_width q / 2)\<bar> \<le> rec_width q / 2 + r
      \<and> \<bar>vec_y c - (rec_y q + rec_height q / 2)\<bar> \<le> rec_height q / 2 + r)"

text \<open>The ball touches the right paddle, 25 below the paddle's centre.\<close>

definition hit_state :: Game where
  "hit_state = (init 500)
     \<lparr>ball := (ball (init 500))\<lparr>position := \<lparr>vec_x = 745, vec_y = 225\<rparr>\<rparr>,
      rightPaddle := (rightPaddle (init 500))\<lparr>position := \<lparr>vec_x = 750, vec_y = 150\<rparr>\<rparr>\<rparr>"

text \<open>The ball has crossed the right edge, and the left edge.\<close>

definition out_right_state :: Game where
  "out_right_state = (init 500)
     \<lparr>ball := (ball (init 500))\<lparr>position := \<lparr>vec_x = 795, vec_y = 100\<rparr>\<rparr>\<rparr>"

definition out_left_state :: Game where
  "out_left_state = (init 500)
     \<lparr>ball := (ball (init 500))\<lparr>position := \<lparr>vec_x = 5, vec_y = 100\<rparr>\<rparr>\<rparr>"

text \<open>A paddle 10 above the bottom wall that moves down, and a paddle outside the screen.\<close>

definition low_paddle :: Paddle where
  "low_paddle =
     \<lparr>position = \<lparr>vec_x = 750, vec_y = 340\<rparr>, versor = \<lparr>vec_x = 0, vec_y = 1\<rparr>,
      speed = 300, size = \<lparr>vec_x = 10, vec_y = 100\<rparr>\<rparr>"

definition stray_paddle :: Paddle where
  "stray_paddle =
     \<lparr>position = \<lparr>vec_x = 50, vec_y = - 10\<rparr>, versor = \<lparr>vec_x = 0, vec_y = 0\<rparr>,
      speed = 300, size = \<lparr>vec_x = 10, vec_y = 100\<rparr>\<rparr>"

text \<open>A paddle under the ball of the first serve, and a ball on a steep course.\<close>

definition centre_paddle :: Paddle where
  "centre_paddle =
     \<lparr>position = \<lparr>vec_x = 395, vec_y = 150\<rparr>, versor = \<lparr>vec_x = 0, vec_y = 0\<rparr>,
      speed = 300, size = \<lparr>vec_x = 10, vec_y = 100\<rparr>\<rparr>"

definition steep_ball :: Ball where
  "steep_ball =
     \<lparr>position = \<lparr>vec_x = 400, vec_y = 225\<rparr>, versor = \<lparr>vec_x = 1, vec_y = 3\<rparr>,
      speed = 400, radius = 7\<rparr>"

text \<open>A frame of a sixtieth of a second with no key held.\<close>

definition idle_input :: FrameInput where
  "idle_input =
     \<lparr>deltaTime = 1 / 60, upHeld = False, downHeld = False, rPressed = False,
      rand_resetGame = 0, rand_resetRound = 0\<rparr>"

text \<open>
  A ball whose course overflows binary32, a ball whose course is rounded, and a paddle as
  tall as the screen.
\<close>

definition overflow_ball :: Ball where
  "overflow_ball =
     \<lparr>position = \<lparr>vec_x = 400, vec_y = 225\<rparr>, versor = \<lparr>vec_x = 1, vec_y = 2 ^ 127\<rparr>,
      speed = 400, radius = 7\<rparr>"

definition fast_ball :: Ball where
  "fast_ball =
     \<lparr>position = \<lparr>vec_x = 400, vec_y = 225\<rparr>, versor = \<lparr>vec_x = 1, vec_y = 10000000\<rparr>,
      speed = 400, radius = 7\<rparr>"

definition tall_paddle :: Paddle where
  "tall_paddle =
     \<lparr>position = \<lparr>vec_x = 50, vec_y = 0\<rparr>, versor = \<lparr>vec_x = 0, vec_y = 1\<rparr>,
      speed = 1, size = \<lparr>vec_x = 10, vec_y = 450\<rparr>\<rparr>"

section \<open>The trajectory predictor\<close>

lemma nonneg_mod_range:
  assumes "0 < p"
  shows "0 \<le> nonneg_mod a p" and "nonneg_mod a p < p"
proof -
  have "real_of_int \<lfloor>a / p\<rfloor> * p \<le> a"
    using assms by (rule floor_divide_lower)
  then show "0 \<le> nonneg_mod a p" by (simp add: nonneg_mod_def mult.commute)
  have "a < (real_of_int \<lfloor>a / p\<rfloor> + 1) * p"
    using assms by (rule floor_divide_upper)
  then show "nonneg_mod a p < p" by (simp add: nonneg_mod_def algebra_simps)
qed

text \<open>
  \<^verbatim>\<open>fmod\<close> followed by the correction of a negative remainder is the non-negative
  remainder: the two differ by one period exactly when the dividend is negative and not a
  multiple of the period.
\<close>

lemma fmod_adjust:
  assumes "0 < p"
  shows "(let m = fmod a p in if m < 0 then m + p else m) = nonneg_mod a p"
proof (cases "0 \<le> a")
  case True
  then have "0 \<le> a / p" using assms by simp
  then have "fmod a p = nonneg_mod a p"
    by (simp add: fmod_def truncf_def nonneg_mod_def mult.commute)
  then show ?thesis using nonneg_mod_range(1) [OF assms, of a] by (simp add: Let_def)
next
  case False
  then have neg: "\<not> 0 \<le> a / p" using assms by (simp add: divide_less_0_iff not_le)
  show ?thesis
  proof (cases "real_of_int \<lfloor>a / p\<rfloor> = a / p")
    case True
    then have c: "\<lceil>a / p\<rceil> = \<lfloor>a / p\<rfloor>" by (metis ceiling_of_int)
    have "real_of_int \<lfloor>a / p\<rfloor> * p = a / p * p" by (simp only: True)
    also have "\<dots> = a" using assms by simp
    finally have "real_of_int \<lfloor>a / p\<rfloor> * p = a" .
    then have "fmod a p = 0" and "nonneg_mod a p = 0"
      using neg c by (simp_all add: fmod_def truncf_def nonneg_mod_def mult.commute)
    then show ?thesis by (simp add: Let_def)
  next
    case False
    then have c: "\<lceil>a / p\<rceil> = \<lfloor>a / p\<rfloor> + 1" by (simp add: ceiling_altdef)
    have "fmod a p = nonneg_mod a p - p"
      using neg c by (simp add: fmod_def truncf_def nonneg_mod_def algebra_simps)
    then show ?thesis using nonneg_mod_range(2) [OF assms, of a] by (simp add: Let_def)
  qed
qed

lemma predictBallY_tri_fold:
  "predictBallY b targetX =
     tri_fold (vec_y (position b)
               + (targetX - vec_x (position b)) * (vec_y (versor b) / vec_x (versor b)))"
proof -
  have "(let m = fmod a 900 in if m < 0 then m + 900 else m) = nonneg_mod a 900" for a
    by (rule fmod_adjust) simp
  then show ?thesis
    by (simp add: predictBallY_def tri_fold_def screenHeight_def Let_def)
qed

lemma tri_fold_range: "0 \<le> tri_fold u" "tri_fold u \<le> 450"
  using nonneg_mod_range [of 900 u] by (simp_all add: tri_fold_def screenHeight_def Let_def)

text \<open>
  Claim C1. \<^verbatim>\<open>predictBallY\<close> computes the algorithm of the specification: the straight
  line \<open>y_raw = ball.y + (targetX - ball.x) * (versor.y / versor.x)\<close>, its non-negative
  remainder modulo \<open>2 * screenHeight\<close>, and the reflection \<open>period - value\<close> of a remainder
  above \<open>screenHeight\<close>. With the screen height 450, a ball at \<open>(400, 225)\<close> with direction
  \<open>(1, 0.5)\<close> is predicted at \<open>y = 400\<close> on the line \<open>x = 750\<close>.
\<close>

theorem predictBallY_is_spec_algorithm:
  "predictBallY b targetX = spec_predictBallY b targetX
   \<and> screenHeight = 450
   \<and> predictBallY
       \<lparr>position = \<lparr>vec_x = 400, vec_y = 225\<rparr>, versor = \<lparr>vec_x = 1, vec_y = 1 / 2\<rparr>,
        speed = s, radius = r\<rparr> 750 = 400"
proof (intro conjI)
  show "predictBallY b targetX = spec_predictBallY b targetX"
    by (simp add: predictBallY_tri_fold tri_fold_def spec_predictBallY_def screenHeight_def
        Let_def not_le [symmetric])
  show "screenHeight = 450"
    by (simp add: screenHeight_def)
  show "predictBallY
       \<lparr>position = \<lparr>vec_x = 400, vec_y = 225\<rparr>, versor = \<lparr>vec_x = 1, vec_y = 1 / 2\<rparr>,
        speed = s, radius = r\<rparr> 750 = 400"
    by (simp add: predictBallY_def fmod_def truncf_def screenHeight_def Let_def)
qed

section \<open>The predictor and the simulation of the bounces\<close>

lemma nonneg_mod_unique:
  assumes "0 < p" "0 \<le> r" "r < p" "a = r + p * real_of_int k"
  shows "nonneg_mod a p = r"
proof -
  have "a / p = r / p + real_of_int k" using assms by (simp add: field_simps)
  moreover have "0 \<le> r / p" "r / p < 1" using assms by simp_all
  ultimately have "\<lfloor>a / p\<rfloor> = k" by (intro floor_unique) simp_all
  then show ?thesis using assms by (simp add: nonneg_mod_def)
qed

lemma nonneg_mod_decompose: "a = nonneg_mod a p + p * real_of_int \<lfloor>a / p\<rfloor>"
  by (simp add: nonneg_mod_def)

lemma nonneg_mod_minus:
  assumes "0 < p"
  shows "nonneg_mod (- a) p = (if nonneg_mod a p = 0 then 0 else p - nonneg_mod a p)"
proof (cases "nonneg_mod a p = 0")
  case True
  then have "- a = 0 + p * real_of_int (- \<lfloor>a / p\<rfloor>)"
    using nonneg_mod_decompose [of a p] by simp
  then have "nonneg_mod (- a) p = 0"
    using assms by (intro nonneg_mod_unique [where k = "- \<lfloor>a / p\<rfloor>"]) simp_all
  with True show ?thesis by simp
next
  case False
  with nonneg_mod_range [OF assms, of a]
  have r: "0 \<le> p - nonneg_mod a p" "p - nonneg_mod a p < p" by simp_all
  have "- a = (p - nonneg_mod a p) + p * real_of_int (- \<lfloor>a / p\<rfloor> - 1)"
    using nonneg_mod_decompose [of a p] by (simp add: algebra_simps)
  with assms r have "nonneg_mod (- a) p = p - nonneg_mod a p"
    by (intro nonneg_mod_unique [where k = "- \<lfloor>a / p\<rfloor> - 1"])
  with False show ?thesis by simp
qed

lemma nonneg_mod_shift:
  assumes "0 < p"
  shows "nonneg_mod (a + p) p = nonneg_mod a p"
proof -
  have "a + p = nonneg_mod a p + p * real_of_int (\<lfloor>a / p\<rfloor> + 1)"
    using nonneg_mod_decompose [of a p] by (simp add: algebra_simps)
  with assms nonneg_mod_range [OF assms, of a] show ?thesis
    by (intro nonneg_mod_unique [where k = "\<lfloor>a / p\<rfloor> + 1"])
qed

lemma tri_fold_id: "0 \<le> u \<Longrightarrow> u \<le> 450 \<Longrightarrow> tri_fold u = u"
proof -
  assume u: "0 \<le> u" "u \<le> 450"
  then have "nonneg_mod u 900 = u" by (intro nonneg_mod_unique [where k = 0]) simp_all
  with u show ?thesis by (simp add: tri_fold_def screenHeight_def)
qed

lemma tri_fold_minus: "tri_fold (- u) = tri_fold u"
  using nonneg_mod_range [of 900 u]
  by (auto simp: tri_fold_def screenHeight_def Let_def nonneg_mod_minus)

lemma tri_fold_reflect: "tri_fold (900 - u) = tri_fold u"
proof -
  have "nonneg_mod (900 - u) 900 = nonneg_mod (- u) 900"
    using nonneg_mod_shift [of 900 "- u"] by simp
  then have "tri_fold (900 - u) = tri_fold (- u)"
    by (simp add: tri_fold_def screenHeight_def)
  then show ?thesis by (simp add: tri_fold_minus)
qed

lemma simulate_bounces_tri_fold:
  assumes "0 \<le> vec_y pos" and "vec_y pos \<le> 450" and "vec_x dir \<noteq> 0"
    and "0 \<le> (targetX - vec_x pos) / vec_x dir"
    and "\<bar>vec_y dir\<bar> * ((targetX - vec_x pos) / vec_x dir)
         + (if 0 < vec_y dir then vec_y pos else if vec_y dir < 0 then 450 - vec_y pos else 0)
         < 450 * real n"
  shows "simulate_bounces n pos dir targetX =
         Some (tri_fold (vec_y pos + vec_y dir * ((targetX - vec_x pos) / vec_x dir)))"
  using assms
proof (induction n arbitrary: pos dir)
  case 0
  have "0 \<le> \<bar>vec_y dir\<bar> * ((targetX - vec_x pos) / vec_x dir)"
    using "0.prems"(4) by (intro mult_nonneg_nonneg) simp_all
  with "0.prems" show ?case by (simp split: if_splits)
next
  case (Suc n)
  define x y vx vy where "x = vec_x pos" and "y = vec_y pos" and "vx = vec_x dir" and "vy = vec_y dir"
  define t where "t = (targetX - x) / vx"
  note defs = x_def y_def vx_def vy_def t_def
  have y: "0 \<le> y" "y \<le> 450" and vx: "vx \<noteq> 0" and t: "0 \<le> t"
    using Suc.prems by (simp_all add: defs)
  have fuel: "\<bar>vy\<bar> * t + (if 0 < vy then y else if vy < 0 then 450 - y else 0)
              < 450 * real (Suc n)"
    using Suc.prems(5) unfolding defs .
  consider (top) "0 < vy" "450 < y + vy * t" | (bottom) "vy < 0" "y + vy * t < 0"
    | (arrive) "\<not> (0 < vy \<and> 450 < y + vy * t)" "\<not> (vy < 0 \<and> y + vy * t < 0)"
    by blast
  then show ?case
  proof cases
    case top
    define tw where "tw = (450 - y) / vy"
    define pos' where "pos' = \<lparr>vec_x = x + vx * tw, vec_y = 450\<rparr>"
    define dir' where "dir' = dir\<lparr>vec_y := - vy\<rparr>"
    have vtw: "vy * tw = 450 - y" using top by (simp add: tw_def)
    have t': "(targetX - vec_x pos') / vec_x dir' = t - tw"
      using vx by (simp add: pos'_def dir'_def t_def vx_def field_simps)
    have "vy * (t - tw) = y + vy * t - 450" using vtw by (simp add: algebra_simps)
    then have vt': "0 < vy * (t - tw)" "vy * (t - tw) < 450 * real n"
      using top fuel by simp_all
    then have tt: "0 \<le> t - tw" using top by (simp add: zero_less_mult_iff)
    have "simulate_bounces n pos' dir' targetX =
        Some (tri_fold (vec_y pos' + vec_y dir' * ((targetX - vec_x pos') / vec_x dir')))"
    proof (rule Suc.IH)
      show "0 \<le> vec_y pos'" "vec_y pos' \<le> 450" by (simp_all add: pos'_def)
      show "vec_x dir' \<noteq> 0" using vx by (simp add: dir'_def vx_def)
      show "0 \<le> (targetX - vec_x pos') / vec_x dir'" unfolding t' by (rule tt)
      show "\<bar>vec_y dir'\<bar> * ((targetX - vec_x pos') / vec_x dir')
            + (if 0 < vec_y dir' then vec_y pos'
               else if vec_y dir' < 0 then 450 - vec_y pos' else 0) < 450 * real n"
        unfolding t' using vt' top by (simp add: pos'_def dir'_def)
    qed
    also have "vec_y pos' + vec_y dir' * ((targetX - vec_x pos') / vec_x dir')
        = 900 - (y + vy * t)"
      unfolding t' using vtw by (simp add: pos'_def dir'_def algebra_simps)
    finally have "simulate_bounces n pos' dir' targetX = Some (tri_fold (y + vy * t))"
      by (simp add: tri_fold_reflect)
    moreover have "simulate_bounces (Suc n) pos dir targetX = simulate_bounces n pos' dir' targetX"
      using top by (simp add: Let_def screenHeight_def pos'_def dir'_def tw_def defs)
    ultimately show ?thesis by (simp add: defs)
  next
    case bottom
    define tw where "tw = (0 - y) / vy"
    define pos' where "pos' = \<lparr>vec_x = x + vx * tw, vec_y = 0\<rparr>"
    define dir' where "dir' = dir\<lparr>vec_y := - vy\<rparr>"
    have vtw: "vy * tw = - y" using bottom by (simp add: tw_def)
    have t': "(targetX - vec_x pos') / vec_x dir' = t - tw"
      using vx by (simp add: pos'_def dir'_def t_def vx_def field_simps)
    have e: "vy * (t - tw) = y + vy * t" using vtw by (simp add: algebra_simps)
    then have vt': "vy * (t - tw) < 0" "- (vy * (t - tw)) < 450 * real n"
      using bottom fuel by simp_all
    then have tt: "0 \<le> t - tw" using bottom by (simp add: mult_less_0_iff)
    have "simulate_bounces n pos' dir' targetX =
        Some (tri_fold (vec_y pos' + vec_y dir' * ((targetX - vec_x pos') / vec_x dir')))"
    proof (rule Suc.IH)
      show "0 \<le> vec_y pos'" "vec_y pos' \<le> 450" by (simp_all add: pos'_def)
      show "vec_x dir' \<noteq> 0" using vx by (simp add: dir'_def vx_def)
      show "0 \<le> (targetX - vec_x pos') / vec_x dir'" unfolding t' by (rule tt)
      show "\<bar>vec_y dir'\<bar> * ((targetX - vec_x pos') / vec_x dir')
            + (if 0 < vec_y dir' then vec_y pos'
               else if vec_y dir' < 0 then 450 - vec_y pos' else 0) < 450 * real n"
        unfolding t' using vt' bottom by (simp add: pos'_def dir'_def)
    qed
    also have "vec_y pos' + vec_y dir' * ((targetX - vec_x pos') / vec_x dir')
        = - (y + vy * t)"
      unfolding t' using e by (simp add: pos'_def dir'_def)
    finally have "simulate_bounces n pos' dir' targetX = Some (tri_fold (y + vy * t))"
      by (simp only: tri_fold_minus)
    moreover have "simulate_bounces (Suc n) pos dir targetX = simulate_bounces n pos' dir' targetX"
      using bottom by (simp add: Let_def screenHeight_def pos'_def dir'_def tw_def defs)
    ultimately show ?thesis by (simp add: defs)
  next
    case arrive
    have "0 \<le> y + vy * t \<and> y + vy * t \<le> 450"
    proof (cases "0 < vy")
      case True
      then have "0 \<le> vy * t" using t by simp
      with arrive True y show ?thesis by simp
    next
      case False
      then have "vy * t \<le> 0" using t by (simp add: mult_le_0_iff)
      with arrive False y show ?thesis by (cases "vy < 0") simp_all
    qed
    then have "tri_fold (y + vy * t) = y + vy * t" by (simp add: tri_fold_id)
    moreover have "simulate_bounces (Suc n) pos dir targetX = Some (y + vy * t)"
      using arrive by (auto simp: Let_def screenHeight_def defs)
    ultimately show ?thesis by (simp add: defs)
  qed
qed

text \<open>
  In exact arithmetic the simulation ends at the coordinate of the predictor, whatever the
  number of bounces, given one unit of fuel per bounce.
\<close>

lemma exact_predictBallY_equals_simulation:
  assumes "0 \<le> vec_y (position b)" and "vec_y (position b) \<le> real_of_int screenHeight"
    and "vec_x (versor b) \<noteq> 0"
    and "0 \<le> (targetX - vec_x (position b)) / vec_x (versor b)"
    and "bounce_fuel b targetX \<le> fuel"
  shows "simulate_bounces fuel (position b) (versor b) targetX = Some (predictBallY b targetX)"
proof -
  define t where "t = (targetX - vec_x (position b)) / vec_x (versor b)"
  define vy where "vy = vec_y (versor b)"
  define A where "A = \<bar>vy\<bar> * t"
  have "\<bar>vy * t\<bar> / 450 \<le> real_of_int \<lceil>\<bar>vy * t\<bar> / 450\<rceil>" by (rule le_of_int_ceiling)
  also have "\<dots> = real (nat \<lceil>\<bar>vy * t\<bar> / 450\<rceil>)" by simp
  also have "\<dots> + 2 = real (bounce_fuel b targetX)"
    by (simp add: bounce_fuel_def screenHeight_def t_def vy_def)
  also have "\<dots> \<le> real fuel" using assms(5) by simp
  finally have "\<bar>vy * t\<bar> + 900 \<le> 450 * real fuel" by simp
  moreover have "0 \<le> t" using assms(4) by (simp only: t_def)
  then have "\<bar>vy * t\<bar> = \<bar>vy\<bar> * t" by (simp only: abs_mult abs_of_nonneg)
  ultimately have "A + 900 \<le> 450 * real fuel" by (simp add: A_def)
  then have "A
      + (if 0 < vy then vec_y (position b) else if vy < 0 then 450 - vec_y (position b) else 0)
      < 450 * real fuel"
    using assms(1,2) by (simp add: screenHeight_def)
  then have "simulate_bounces fuel (position b) (versor b) targetX =
      Some (tri_fold (vec_y (position b) + vy * t))"
    unfolding A_def t_def vy_def
    using assms(1-4) by (intro simulate_bounces_tri_fold) (simp_all add: screenHeight_def)
  moreover have "(targetX - vec_x (position b)) * (vy / vec_x (versor b)) = vy * t"
    by (simp add: t_def)
  ultimately show ?thesis by (simp add: predictBallY_tri_fold vy_def)
qed

lemma simulate_steep_ball:
  "simulate_bounces 5 (position steep_ball) (versor steep_ball) 750 = Some 375"
  by (simp add: eval_nat_numeral steep_ball_def screenHeight_def Let_def)

section \<open>Rounding to binary32\<close>

lemma bexp_set_finite: "finite (insert (- 126) {e \<in> {- 125..127}. 2 powi e \<le> (a::real)})"
  by (rule finite.insertI, rule finite_subset [of _ "{- 125..127}"]) auto

lemma bexp_in:
  "bexp a \<in> insert (- 126) {e \<in> {- 125..127}. 2 powi e \<le> a}"
  unfolding bexp_def by (rule Max_in [OF bexp_set_finite]) simp

lemma bexp_bounds: "- 126 \<le> bexp a" "bexp a \<le> 127"
  using bexp_in [of a] by auto

lemma bexp_lower: "- 126 < bexp a \<Longrightarrow> 2 powi bexp a \<le> a"
  using bexp_in [of a] by auto

lemma bexp_upper:
  assumes "bexp a < 127"
  shows "a < 2 powi (bexp a + 1)"
proof (rule ccontr)
  assume "\<not> a < 2 powi (bexp a + 1)"
  then have "bexp a + 1 \<in> insert (- 126) {e \<in> {- 125..127}. 2 powi e \<le> a}"
    using assms bexp_bounds(1) [of a] by simp
  then have "bexp a + 1 \<le> bexp a"
    unfolding bexp_def by (rule Max_ge [OF bexp_set_finite])
  then show False by simp
qed

lemma bexp_eq:
  assumes "- 126 \<le> e" and "e \<le> 127" and "- 126 < e \<Longrightarrow> 2 powi e \<le> a"
    and "e < 127 \<Longrightarrow> a < 2 powi (e + 1)"
  shows "bexp a = e"
proof (rule antisym)
  show "bexp a \<le> e"
  proof (rule ccontr)
    assume "\<not> bexp a \<le> e"
    then have lt: "e < bexp a" by simp
    then have "e < 127" using bexp_bounds(2) [of a] by simp
    from assms(4) [OF this] have "a < 2 powi (e + 1)" .
    also have "2 powi (e + 1) \<le> (2::real) powi bexp a"
      using lt by (intro power_int_increasing) simp_all
    also have "\<dots> \<le> a" using lt assms(1) by (intro bexp_lower) simp
    finally show False by simp
  qed
  show "e \<le> bexp a"
  proof (cases "e = - 126")
    case True
    then show ?thesis using bexp_bounds(1) [of a] by simp
  next
    case False
    then have "- 126 < e" using assms(1) by simp
    from assms(3) [OF this] have "e \<in> insert (- 126) {e \<in> {- 125..127}. 2 powi e \<le> a}"
      using \<open>- 126 < e\<close> assms(2) by simp
    then show ?thesis unfolding bexp_def by (rule Max_ge [OF bexp_set_finite])
  qed
qed

lemma round_half_even_near: "\<bar>real_of_int (round_half_even m) - m\<bar> \<le> 1 / 2"
  unfolding round_half_even_def Let_def
  using floor_correct [of m] by (auto simp: abs_le_iff)

lemma round_half_even_ge: "real_of_int k \<le> m \<Longrightarrow> k \<le> round_half_even m"
  unfolding round_half_even_def Let_def
  using le_floor_iff [of k m] by auto

lemma round_half_even_le: "m \<le> real_of_int k \<Longrightarrow> round_half_even m \<le> k"
proof -
  assume a: "m \<le> real_of_int k"
  then have f: "\<lfloor>m\<rfloor> \<le> k" by (simp add: floor_le_iff) 
  show ?thesis
  proof (cases "\<lfloor>m\<rfloor> = k")
    case True
    then have "m - real_of_int \<lfloor>m\<rfloor> \<le> 0" using a by simp
    then show ?thesis using True by (simp add: round_half_even_def Let_def)
  next
    case False
    with f have "\<lfloor>m\<rfloor> + 1 \<le> k" by simp
    then show ?thesis by (auto simp: round_half_even_def Let_def)
  qed
qed


lemma ulp32_pos: "0 < ulp32 x"
  by (simp add: ulp32_def)

lemma pow2_ge_multiple:
  assumes "k \<le> j"
  shows "\<exists>K. (2::real) powi j = real_of_int K * 2 powi k \<and> 0 < K"
proof -
  have "(2::real) powi j = 2 powi (j - k) * 2 powi k"
    by (simp add: power_int_add [symmetric])
  also have "(2::real) powi (j - k) = real_of_int (2 ^ nat (j - k))"
    using assms by (simp add: power_int_def)
  finally show ?thesis by (intro exI [of _ "2 ^ nat (j - k)"]) simp
qed

lemma is_f32_multiple:
  assumes "r = real_of_int n * 2 powi k" and "j \<le> k"
  shows "\<exists>K. r = real_of_int K * 2 powi j"
proof -
  from pow2_ge_multiple [OF assms(2)] obtain K where "(2::real) powi k = real_of_int K * 2 powi j"
    by blast
  then have "r = real_of_int (n * K) * 2 powi j" using assms(1) by simp
  then show ?thesis by blast
qed

lemma is_f32_small:
  assumes "r = real_of_int n * 2 powi k" and "\<bar>n\<bar> < 2 ^ 24" and "k + 24 \<le> e"
  shows "\<bar>r\<bar> < 2 powi e"
proof -
  have "\<bar>r\<bar> = real_of_int \<bar>n\<bar> * 2 powi k" using assms(1) by (simp add: abs_mult)
  also have "\<dots> < 2 ^ 24 * 2 powi k"
  proof -
    have "real_of_int \<bar>n\<bar> < real_of_int (2 ^ 24)" using assms(2) by (simp only: of_int_less_iff)
    then show ?thesis by (simp del: of_int_abs)
  qed
  also have "\<dots> = 2 powi (k + 24)" by (simp add: power_int_add)
  also have "\<dots> \<le> 2 powi e" using assms(3) by (intro power_int_increasing) simp_all
  finally show ?thesis .
qed

lemma is_f32_bound:
  assumes "is_f32 b"
  shows "\<bar>b\<bar> < 2 powi 128"
proof -
  from assms obtain n k where "b = real_of_int n * 2 powi k" "\<bar>n\<bar> < 2 ^ 24" "k \<le> 104"
    unfolding is_f32_def by blast
  then show ?thesis by (intro is_f32_small [of b n k]) simp_all
qed

lemma nearest32_le:
  assumes "is_f32 b" and "x \<le> b"
  shows "nearest32 x \<le> b"
proof -
  define e where "e = bexp \<bar>x\<bar>"
  define u where "u = ulp32 x"
  have u: "0 < u" "u = 2 powi (e - 23)" by (simp_all add: u_def e_def ulp32_def)
  from assms(1) obtain n k where b: "b = real_of_int n * 2 powi k" "\<bar>n\<bar> < 2 ^ 24" "- 149 \<le> k"
    unfolding is_f32_def by blast
  show ?thesis
  proof (cases "e - 23 \<le> k")
    case True
    from is_f32_multiple [OF b(1) True] obtain K where K: "b = real_of_int K * u"
      unfolding u(2) by blast
    then have "x / u \<le> real_of_int K" using assms(2) u(1) by (simp add: field_simps)
    then have "round_half_even (x / u) \<le> K" by (rule round_half_even_le)
    then have "real_of_int (round_half_even (x / u)) \<le> real_of_int K" by simp
    then have "real_of_int (round_half_even (x / u)) * u \<le> real_of_int K * u"
      using u(1) by (simp only: mult_le_cancel_right_pos)
    then show ?thesis by (simp add: nearest32_def u_def [symmetric] K)
  next
    case False
    then have small: "\<bar>b\<bar> < 2 powi e" using b by (intro is_f32_small [OF b(1,2)]) simp
    from False b(3) have "- 126 < e" by simp
    then have "2 powi e \<le> \<bar>x\<bar>" unfolding e_def by (rule bexp_lower)
    with small assms(2) have x: "x \<le> - (2 powi e)" by simp
    have "(2::real) powi e = 2 ^ 23 * u" unfolding u(2) by (simp add: power_int_diff)
    with x have "x / u \<le> real_of_int (- (2 ^ 23))" using u(1) by (simp add: field_simps)
    then have "round_half_even (x / u) \<le> - (2 ^ 23)" by (rule round_half_even_le)
    then have "real_of_int (round_half_even (x / u)) \<le> real_of_int (- (2 ^ 23))"
      by (simp only: of_int_le_iff)
    then have "real_of_int (round_half_even (x / u)) * u \<le> real_of_int (- (2 ^ 23)) * u"
      using u(1) by (simp only: mult_le_cancel_right_pos)
    also have "\<dots> = - (2 powi e)" by (simp add: \<open>2 powi e = 2 ^ 23 * u\<close>)
    also have "\<dots> \<le> b" using small by simp
    finally show ?thesis by (simp add: nearest32_def u_def [symmetric])
  qed
qed


lemma nearest32_minus: "nearest32 (- x) = - nearest32 x"
proof -
  have "round_half_even (- m) = - round_half_even m" for m
  proof (cases "m \<in> \<int>")
    case True
    then obtain k where "m = real_of_int k" by (auto elim: Ints_cases)
    then show ?thesis by (simp add: round_half_even_def)
  next
    case False
    then have "m \<noteq> real_of_int \<lfloor>m\<rfloor>" by (metis Ints_of_int)
    then have "\<lfloor>- m\<rfloor> = - \<lfloor>m\<rfloor> - 1"
      by (simp add: floor_minus ceiling_altdef)
    then show ?thesis
      by (auto simp: round_half_even_def Let_def)
  qed
  then show ?thesis by (simp add: nearest32_def ulp32_def)
qed

lemma is_f32_minus: "is_f32 r \<Longrightarrow> is_f32 (- r)"
  unfolding is_f32_def
  by (elim exE conjE, rule_tac x = "- n" in exI, rule_tac x = k in exI) simp

lemma nearest32_ge:
  assumes "is_f32 a" and "a \<le> x"
  shows "a \<le> nearest32 x"
proof -
  have "nearest32 (- x) \<le> - a"
    using assms by (intro nearest32_le is_f32_minus) simp_all
  then show ?thesis by (simp add: nearest32_minus)
qed


lemma is_f32I:
  "r = real_of_int n * 2 powi k \<Longrightarrow> \<bar>n\<bar> < 2 ^ 24 \<Longrightarrow> - 149 \<le> k \<Longrightarrow> k \<le> 104 \<Longrightarrow> is_f32 r"
  unfolding is_f32_def by blast

lemma is_f32_of_int: "\<bar>n\<bar> < 2 ^ 24 \<Longrightarrow> is_f32 (real_of_int n)"
  by (rule is_f32I [of _ n 0]) simp_all

lemma round32_between:
  assumes "is_f32 a" and "is_f32 b" and "a \<le> x" and "x \<le> b"
  shows "round32 x = Finite (nearest32 x)" and "a \<le> nearest32 x" and "nearest32 x \<le> b"
proof -
  show lo: "a \<le> nearest32 x" using assms(1,3) by (rule nearest32_ge)
  show hi: "nearest32 x \<le> b" using assms(2,4) by (rule nearest32_le)
  have "\<bar>nearest32 x\<bar> < 2 powi 128"
    using lo hi is_f32_bound [OF assms(1)] is_f32_bound [OF assms(2)] by (simp add: abs_less_iff)
  then show "round32 x = Finite (nearest32 x)" by (simp add: round32_def)
qed

lemma nearest32_exact: "is_f32 x \<Longrightarrow> nearest32 x = x"
  using nearest32_le [of x x] nearest32_ge [of x x] by simp

lemma round32_exact: "is_f32 x \<Longrightarrow> round32 x = Finite x"
  using round32_between(1) [of x x x] by (simp add: nearest32_exact)

lemma nearest32_error: "\<bar>nearest32 x - x\<bar> \<le> ulp32 x / 2"
proof -
  define u where "u = ulp32 x"
  define c where "c = real_of_int (round_half_even (x / u))"
  have u: "0 < u" by (simp add: u_def ulp32_pos)
  have "\<bar>c - x / u\<bar> \<le> 1 / 2" unfolding c_def by (rule round_half_even_near)
  then have "\<bar>c - x / u\<bar> * u \<le> 1 / 2 * u"
    using u by (simp only: mult_le_cancel_right_pos)
  moreover have "(c - x / u) * u = c * u - x" using u by (simp add: left_diff_distrib)
  then have "\<bar>c * u - x\<bar> = \<bar>c - x / u\<bar> * \<bar>u\<bar>" by (simp only: abs_mult [symmetric])
  then have "\<bar>c - x / u\<bar> * u = \<bar>c * u - x\<bar>" using u by simp
  ultimately show ?thesis by (simp add: nearest32_def u_def c_def)
qed

lemma ulp32_le:
  assumes "\<bar>x\<bar> < 2 powi k" and "- 125 \<le> k"
  shows "ulp32 x \<le> 2 powi (k - 24)"
proof -
  have "bexp \<bar>x\<bar> \<le> k - 1"
  proof (cases "- 126 < bexp \<bar>x\<bar>")
    case True
    then have "2 powi bexp \<bar>x\<bar> \<le> \<bar>x\<bar>" by (rule bexp_lower)
    with assms(1) have lt: "(2::real) powi bexp \<bar>x\<bar> < 2 powi k" by simp
    have "bexp \<bar>x\<bar> < k"
    proof (rule ccontr)
      assume "\<not> bexp \<bar>x\<bar> < k"
      then have "(2::real) powi k \<le> 2 powi bexp \<bar>x\<bar>"
        by (intro power_int_increasing) simp_all
      with lt show False by simp
    qed
    then show ?thesis by simp
  next
    case False
    with bexp_bounds(1) [of "\<bar>x\<bar>"] assms(2) show ?thesis by simp
  qed
  then show ?thesis unfolding ulp32_def by (intro power_int_increasing) simp_all
qed

lemma is_f32_nearest32:
  assumes "\<bar>nearest32 x\<bar> < 2 powi 128"
  shows "is_f32 (nearest32 x)"
proof -
  define e where "e = bexp \<bar>x\<bar>"
  define u where "u = ulp32 x"
  define n where "n = round_half_even (x / u)"
  have u: "0 < u" "u = 2 powi (e - 23)" by (simp_all add: u_def e_def ulp32_def)
  have r: "nearest32 x = real_of_int n * u" by (simp add: nearest32_def n_def u_def)
  have e: "- 126 \<le> e" "e \<le> 127" using bexp_bounds [of "\<bar>x\<bar>"] by (simp_all add: e_def)
  have n24: "\<bar>n\<bar> \<le> 2 ^ 24"
  proof (cases "e < 127")
    case True
    then have "\<bar>x\<bar> < 2 powi (e + 1)" unfolding e_def by (rule bexp_upper)
    also have "(2::real) powi (e + 1) = 2 ^ 24 * u" unfolding u(2) by (simp add: power_int_diff power_int_add)
    finally have "x < 2 ^ 24 * u" "- (2 ^ 24 * u) < x" by (simp_all add: abs_less_iff)
    then have "x / u \<le> real_of_int (2 ^ 24)" "real_of_int (- (2 ^ 24)) \<le> x / u"
      using u(1) by (simp_all add: field_simps)
    then have "n \<le> 2 ^ 24" "- (2 ^ 24) \<le> n"
      unfolding n_def by (simp_all only: round_half_even_le round_half_even_ge)
    then show ?thesis by simp
  next
    case False
    with e have "e = 127" by simp
    then have "u = 2 powi 104" by (simp add: u(2))
    with assms r have "\<bar>real_of_int n\<bar> * 2 powi 104 < (2::real) powi 128" by (simp add: abs_mult)
    also have "(2::real) powi 128 = 2 ^ 24 * 2 powi 104" by simp
    finally have "\<bar>real_of_int n\<bar> < 2 ^ 24" by (simp only: mult_less_cancel_right_pos zero_less_power_int zero_less_numeral)
    then have "real_of_int \<bar>n\<bar> < real_of_int (2 ^ 24)" by simp
    then have "\<bar>n\<bar> < 2 ^ 24" by (simp only: of_int_less_iff)
    then show ?thesis by simp
  qed
  show ?thesis
  proof (cases "\<bar>n\<bar> < 2 ^ 24")
    case True
    show ?thesis using r True e unfolding u(2) by (intro is_f32I [of _ n "e - 23"]) simp_all
  next
    case False
    with n24 have n: "\<bar>n\<bar> = 2 ^ 24" by simp
    have "e \<noteq> 127"
    proof
      assume "e = 127"
      then have "u = 2 powi 104" by (simp add: u(2))
      then have "\<bar>nearest32 x\<bar> = real_of_int \<bar>n\<bar> * 2 powi 104" by (simp add: r abs_mult)
      also have "\<dots> = 2 powi 128" by (simp add: n)
      finally show False using assms by simp
    qed
    with e have e': "e \<le> 126" by simp
    have u2: "2 powi (e - 22) = 2 * u" unfolding u(2) by (simp add: power_int_diff)
    from n consider "n = 2 ^ 24" | "n = - (2 ^ 24)" by (auto simp: abs_if split: if_splits)
    then have "real_of_int n = real_of_int (n div 2) * 2" by cases simp_all
    then have "nearest32 x = real_of_int (n div 2) * 2 powi (e - 22)"
      by (simp add: r u2)
    moreover have "\<bar>n div 2\<bar> < 2 ^ 24" using n by (auto simp: abs_if split: if_splits)
    ultimately show ?thesis using e e' by (intro is_f32I [of _ "n div 2" "e - 22"]) simp_all
  qed
qed

lemma round32_is_f32: "round32 x = Finite r \<Longrightarrow> is_f32 r"
  by (auto simp: round32_def not_le split: if_splits intro: is_f32_nearest32)

lemma is_f32_grid:
  assumes "is_f32 y" and "2 powi j \<le> \<bar>y\<bar>"
  shows "\<exists>K. y = real_of_int K * 2 powi (j - 23)"
proof -
  from assms(1) obtain n k where y: "y = real_of_int n * 2 powi k" "\<bar>n\<bar> < 2 ^ 24"
    unfolding is_f32_def by blast
  have "j - 23 \<le> k"
  proof (rule ccontr)
    assume "\<not> j - 23 \<le> k"
    then have "\<bar>y\<bar> < 2 powi j" by (intro is_f32_small [OF y]) simp
    with assms(2) show False by simp
  qed
  with y(1) show ?thesis by (rule is_f32_multiple)
qed

lemma f32_of_int_small: "\<bar>n\<bar> < 2 ^ 24 \<Longrightarrow> f32_of_int n = Finite (real_of_int n)"
  unfolding f32_of_int_def by (intro round32_exact is_f32_of_int)

lemma f32_constants:
  "f32_of_int 0 = Finite 0" "f32_of_int screenHeight = Finite 450"
  "f32_of_int (2 * screenHeight) = Finite 900" "f32_of_int screenWidth = Finite 800"
  using f32_of_int_small [of 0] f32_of_int_small [of 450] f32_of_int_small [of 900]
    f32_of_int_small [of 800]
  by (simp_all add: screenHeight_def screenWidth_def)

lemma is_f32_constants: "is_f32 0" "is_f32 450" "is_f32 900" "is_f32 800"
  using is_f32_of_int [of 0] is_f32_of_int [of 450] is_f32_of_int [of 900] is_f32_of_int [of 800]
  by simp_all

lemma round32_error_below:
  assumes "round32 x = Finite r" and "\<bar>x\<bar> < 2 powi k" and "- 125 \<le> k"
  shows "\<bar>r - x\<bar> \<le> 2 powi (k - 25)"
proof -
  from assms(1) have r: "r = nearest32 x" by (auto simp: round32_def split: if_splits)
  have "\<bar>r - x\<bar> \<le> ulp32 x / 2" unfolding r by (rule nearest32_error)
  also have "\<dots> \<le> 2 powi (k - 24) / 2" using ulp32_le [OF assms(2,3)] by simp
  also have "\<dots> = 2 powi (k - 25)" by (simp add: power_int_diff)
  finally show ?thesis .
qed

lemma round32_numeral:
  "numeral w < (2::int) ^ 24 \<Longrightarrow> round32 (numeral w) = Finite (numeral w)"
  using round32_exact [OF is_f32_of_int [of "numeral w"]] by simp

lemma round32_zero: "round32 0 = Finite 0"
  using round32_exact [OF is_f32_of_int [of 0]] by simp

lemma round32_one: "round32 1 = Finite 1"
  using round32_exact [OF is_f32_of_int [of 1]] by simp

lemma round32_dyadic:
  "\<bar>n\<bar> < 2 ^ 24 \<Longrightarrow> - 149 \<le> k \<Longrightarrow> k \<le> 104 \<Longrightarrow>
   round32 (real_of_int n * 2 powi k) = Finite (real_of_int n * 2 powi k)"
  by (intro round32_exact is_f32I [of _ n k]) simp_all

lemma round32_overflow:
  assumes "2 powi 128 \<le> x"
  shows "round32 x = PInf"
proof -
  have x: "0 < x" using assms by (rule less_le_trans [rotated]) simp
  have "(2::real) powi 127 \<le> 2 powi 128" by simp
  with assms x have "bexp \<bar>x\<bar> = 127" by (intro bexp_eq) simp_all
  then have u: "ulp32 x = 2 powi 104" by (simp add: ulp32_def)
  have "(2::real) powi 128 = 2 ^ 24 * 2 powi 104" by simp
  with assms have "real_of_int (2 ^ 24) \<le> x / ulp32 x" by (simp add: u field_simps)
  then have "2 ^ 24 \<le> round_half_even (x / ulp32 x)" by (rule round_half_even_ge)
  then have "real_of_int (2 ^ 24) \<le> real_of_int (round_half_even (x / ulp32 x))"
    by (simp only: of_int_le_iff)
  then have "real_of_int (2 ^ 24) * 2 powi 104 \<le> nearest32 x"
    unfolding nearest32_def u by (simp only: mult_le_cancel_right_pos zero_less_power_int zero_less_numeral)
  then have "2 powi 128 \<le> \<bar>nearest32 x\<bar>" by simp
  with x show ?thesis by (simp add: round32_def)
qed

lemma nearest32_eval:
  assumes "- 126 \<le> e" and "e \<le> 127" and "2 powi e \<le> \<bar>x\<bar>" and "\<bar>x\<bar> < 2 powi (e + 1)"
  shows "nearest32 x = real_of_int (round_half_even (x / 2 powi (e - 23))) * 2 powi (e - 23)"
proof -
  have "bexp \<bar>x\<bar> = e" using assms by (intro bexp_eq) simp_all
  then show ?thesis by (simp add: nearest32_def ulp32_def)
qed

lemma round32_3500000225: "round32 3500000225 = Finite 3500000256"
proof -
  have "nearest32 3500000225 = 3500000256"
    using nearest32_eval [of 31 3500000225] by (simp add: round_half_even_def Let_def)
  then show ?thesis by (simp add: round32_def)
qed

lemma round32_neg_numeral:
  "numeral w < (2::int) ^ 24 \<Longrightarrow> round32 (- numeral w) = Finite (- numeral w)"
  using round32_exact [OF is_f32_of_int [of "- numeral w"]] by simp

section \<open>The predictor in binary32\<close>

lemma predictBallY_f32_unfold:
  "predictBallY_f32 b targetX =
     (let y_mod = f32_fmod (y_raw_f32 b targetX) (Finite 900);
          y_mod = (if f32_less y_mod (Finite 0) then f32_add y_mod (Finite 900) else y_mod)
      in if f32_le y_mod (Finite 450) then y_mod else f32_sub (Finite 900) y_mod)"
  by (simp add: predictBallY_f32_def y_raw_f32_def f32_constants Let_def)

lemma predictBallY_f32_not_finite:
  "\<not> f32_finite (y_raw_f32 b targetX) \<Longrightarrow> predictBallY_f32 b targetX = NaN"
  by (cases "y_raw_f32 b targetX") (simp_all add: predictBallY_f32_unfold f32_sub_def)

lemma fold_lipschitz:
  fixes a b :: real
  shows "\<bar>(if a \<le> 450 then a else 900 - a) - (if b \<le> 450 then b else 900 - b)\<bar> \<le> \<bar>a - b\<bar>"
  by (auto simp: abs_le_iff)

lemma predictBallY_f32_fold:
  assumes "y_raw_f32 b targetX = Finite yr"
  shows "\<exists>v. predictBallY_f32 b targetX = Finite v \<and> 0 \<le> v \<and> v \<le> 450
             \<and> \<bar>v - tri_fold yr\<bar> \<le> 1 / 2 ^ 14"
proof -
  define m where "m = fmod yr 900"
  define z where "z = nonneg_mod yr 900"
  have z: "0 \<le> z" "z < 900" unfolding z_def using nonneg_mod_range [of 900 yr] by simp_all
  have mz: "(if m < 0 then m + 900 else m) = z"
    using fmod_adjust [of 900 yr] by (auto simp: m_def z_def Let_def split: if_splits)
  have t: "tri_fold yr = (if z \<le> 450 then z else 900 - z)"
    by (simp add: tri_fold_def z_def screenHeight_def Let_def)
  obtain z' where z': "(if f32_less (Finite m) (Finite 0) then f32_add (Finite m) (Finite 900)
      else Finite m) = Finite z'" "0 \<le> z'" "z' \<le> 900" "\<bar>z' - z\<bar> \<le> 1 / 2 ^ 15"
  proof (cases "m < 0")
    case True
    with mz have e: "m + 900 = z" by simp
    have r: "round32 z = Finite (nearest32 z)" "0 \<le> nearest32 z" "nearest32 z \<le> 900"
      using z by (simp_all add: round32_between [of 0 900 z] is_f32_constants)
    have "\<bar>nearest32 z - z\<bar> \<le> 2 powi (10 - 25)"
      using r(1) z by (intro round32_error_below) simp_all
    then have "\<bar>nearest32 z - z\<bar> \<le> 1 / 2 ^ 15" by simp
    with True r e show ?thesis by (intro that [of "nearest32 z"]) simp_all
  next
    case False
    with mz have "m = z" by simp
    with False z show ?thesis by (intro that [of z]) simp_all
  qed
  show ?thesis
  proof (cases "z' \<le> 450")
    case True
    have "\<bar>z' - tri_fold yr\<bar> \<le> \<bar>z' - z\<bar>"
      using fold_lipschitz [of z' z] True by (simp add: t)
    with z'(4) have "\<bar>z' - tri_fold yr\<bar> \<le> 1 / 2 ^ 14" by simp
    with True z' show ?thesis
      by (simp add: predictBallY_f32_unfold assms m_def [symmetric] Let_def)
  next
    case False
    define w where "w = 900 - z'"
    have w: "0 \<le> w" "w \<le> 450" using False z' by (simp_all add: w_def)
    have r: "round32 w = Finite (nearest32 w)" "0 \<le> nearest32 w" "nearest32 w \<le> 450"
      using w by (simp_all add: round32_between [of 0 450 w] is_f32_constants)
    have "\<bar>nearest32 w - w\<bar> \<le> 2 powi (9 - 25)"
      using r(1) w by (intro round32_error_below) simp_all
    then have e1: "\<bar>nearest32 w - w\<bar> \<le> 1 / 2 ^ 16" by simp
    have "\<bar>w - tri_fold yr\<bar> \<le> \<bar>z' - z\<bar>"
      using fold_lipschitz [of z' z] False by (simp add: t w_def)
    with z'(4) have e2: "\<bar>w - tri_fold yr\<bar> \<le> 1 / 2 ^ 15" by simp
    have "\<bar>nearest32 w - tri_fold yr\<bar> \<le> \<bar>nearest32 w - w\<bar> + \<bar>w - tri_fold yr\<bar>" by simp
    with e1 e2 have "\<bar>nearest32 w - tri_fold yr\<bar> \<le> 1 / 2 ^ 14" by simp
    moreover have "predictBallY_f32 b targetX = Finite (nearest32 w)"
      using False z'(1) r(1)
      by (simp add: predictBallY_f32_unfold assms m_def [symmetric] Let_def f32_sub_def w_def)
    ultimately show ?thesis using r by simp
  qed
qed

lemma tri_fold_le_dist: "tri_fold u \<le> \<bar>u - 900 * real_of_int k\<bar>"
proof -
  define z where "z = nonneg_mod u 900"
  define q where "q = \<lfloor>u / 900\<rfloor>"
  have z: "0 \<le> z" "z < 900" unfolding z_def using nonneg_mod_range [of 900 u] by simp_all
  have u: "u = z + 900 * real_of_int q" by (simp add: z_def q_def nonneg_mod_def)
  have t: "tri_fold u = (if z \<le> 450 then z else 900 - z)"
    by (simp add: tri_fold_def z_def screenHeight_def Let_def)
  have e: "u - 900 * real_of_int k = z + 900 * real_of_int (q - k)" by (simp add: u algebra_simps)
  show ?thesis
  proof (cases "0 \<le> q - k")
    case True
    then have "0 \<le> real_of_int (q - k)" by (simp only: of_int_0_le_iff)
    then have "z \<le> z + 900 * real_of_int (q - k)" by simp
    with z show ?thesis unfolding e t by (simp split: if_splits)
  next
    case False
    then have "q - k \<le> - 1" by simp
    then have "real_of_int (q - k) \<le> - 1" by (metis of_int_le_iff of_int_minus of_int_1)
    then have "z + 900 * real_of_int (q - k) \<le> z - 900" by simp
    with z show ?thesis unfolding e t by (simp split: if_splits)
  qed
qed

lemma tri_fold_dist: "\<exists>k. tri_fold u = \<bar>u - 900 * real_of_int k\<bar>"
proof -
  define z where "z = nonneg_mod u 900"
  define q where "q = \<lfloor>u / 900\<rfloor>"
  have z: "0 \<le> z" "z < 900" unfolding z_def using nonneg_mod_range [of 900 u] by simp_all
  have u: "u = z + 900 * real_of_int q" by (simp add: z_def q_def nonneg_mod_def)
  have t: "tri_fold u = (if z \<le> 450 then z else 900 - z)"
    by (simp add: tri_fold_def z_def screenHeight_def Let_def)
  show ?thesis
  proof (cases "z \<le> 450")
    case True
    have "u - 900 * real_of_int q = z" by (simp add: u)
    with True z t have "tri_fold u = \<bar>u - 900 * real_of_int q\<bar>" by simp
    then show ?thesis ..
  next
    case False
    have "u - 900 * real_of_int (q + 1) = z - 900" by (simp add: u)
    with False z t have "tri_fold u = \<bar>u - 900 * real_of_int (q + 1)\<bar>" by simp
    then show ?thesis ..
  qed
qed

lemma tri_fold_lipschitz: "\<bar>tri_fold a - tri_fold b\<bar> \<le> \<bar>a - b\<bar>"
proof -
  have one: "tri_fold c \<le> tri_fold d + \<bar>c - d\<bar>" for c d
  proof -
    from tri_fold_dist [of d] obtain k where k: "tri_fold d = \<bar>d - 900 * real_of_int k\<bar>" ..
    have "tri_fold c \<le> \<bar>c - 900 * real_of_int k\<bar>" by (rule tri_fold_le_dist)
    also have "\<dots> \<le> \<bar>d - 900 * real_of_int k\<bar> + \<bar>c - d\<bar>" by simp
    finally show ?thesis by (simp add: k)
  qed
  from one [of a b] one [of b a] show ?thesis by (simp add: abs_le_iff abs_minus_commute)
qed

lemma y_raw_f32_zero_divisor:
  "f32_x (versor_f32 b) = Finite 0 \<Longrightarrow> \<not> f32_finite (y_raw_f32 b targetX)"
proof -
  assume z: "f32_x (versor_f32 b) = Finite 0"
  have q: "\<not> f32_finite (f32_div y (Finite 0))" for y
    by (cases y) simp_all
  have m: "\<not> f32_finite q \<Longrightarrow> \<not> f32_finite (f32_mul d q)" for d q
    by (cases d; cases q) simp_all
  have a: "\<not> f32_finite d \<Longrightarrow> \<not> f32_finite (f32_add y d)" for y d
    by (cases y; cases d) simp_all
  show ?thesis
    unfolding y_raw_f32_def Let_def z by (intro a m q)
qed

lemma ball_f32_simps [simp]:
  "f32_x (position_f32 (ball_f32 b)) = Finite (vec_x (position b))"
  "f32_y (position_f32 (ball_f32 b)) = Finite (vec_y (position b))"
  "f32_x (versor_f32 (ball_f32 b)) = Finite (vec_x (versor b))"
  "f32_y (versor_f32 (ball_f32 b)) = Finite (vec_y (versor b))"
  by (simp_all add: ball_f32_def)

lemma y_raw_f32_steep_ball: "y_raw_f32 (ball_f32 steep_ball) (Finite 750) = Finite 1275"
  by (simp add: y_raw_f32_def steep_ball_def f32_sub_def round32_numeral Let_def)

lemma predictBallY_f32_steep_ball: "predictBallY_f32 (ball_f32 steep_ball) (Finite 750) = Finite 375"
  by (simp add: predictBallY_f32_unfold y_raw_f32_steep_ball fmod_def truncf_def Let_def)

lemma y_raw_f32_overflow_ball: "y_raw_f32 (ball_f32 overflow_ball) (Finite 750) = PInf"
proof -
  have "round32 (2 ^ 127) = Finite (2 ^ 127)"
    using round32_dyadic [of "2 ^ 23" 104] by simp
  moreover have "round32 (350 * 2 ^ 127) = PInf" by (rule round32_overflow) simp
  ultimately show ?thesis
    by (simp add: y_raw_f32_def overflow_ball_def f32_sub_def round32_numeral Let_def)
qed

lemma y_raw_f32_fast_ball: "y_raw_f32 (ball_f32 fast_ball) (Finite 750) = Finite 3500000256"
proof -
  have "round32 3500000000 = Finite 3500000000"
    using round32_dyadic [of 13671875 8] by simp
  then show ?thesis
    by (simp add: y_raw_f32_def fast_ball_def f32_sub_def round32_numeral round32_3500000225
        Let_def)
qed

lemma is_f32_pow2:
  assumes "- 126 \<le> k" and "k \<le> 127"
  shows "is_f32 (2 powi k)" and "is_f32 (- (2 powi k))"
proof -
  have "(2::real) powi k = real_of_int (2 ^ 23) * 2 powi (k - 23)"
    by (simp add: power_int_diff)
  then show "is_f32 (2 powi k)"
    using assms by (intro is_f32I [of _ "2 ^ 23" "k - 23"]) simp_all
  then show "is_f32 (- (2 powi k))" by (rule is_f32_minus)
qed

lemma round32_bounded:
  assumes "\<bar>x\<bar> \<le> 2 powi k" and "- 126 \<le> k" and "k \<le> 127"
  shows "\<exists>r. round32 x = Finite r \<and> \<bar>r\<bar> \<le> 2 powi k"
  using round32_between [OF is_f32_pow2(2) [OF assms(2,3)] is_f32_pow2(1) [OF assms(2,3)], of x]
    assms(1)
  by (auto simp: abs_le_iff)

lemma y_raw_f32_finite:
  assumes "\<bar>vec_x (position b)\<bar> \<le> 2 ^ 30" and "\<bar>vec_y (position b)\<bar> \<le> 2 ^ 30"
    and "\<bar>targetX\<bar> \<le> 2 ^ 30" and "\<bar>vec_y (versor b)\<bar> \<le> 2 ^ 30"
    and "1 / 2 ^ 30 \<le> \<bar>vec_x (versor b)\<bar>"
  shows "f32_finite (y_raw_f32 (ball_f32 b) (Finite targetX))"
proof -
  define x0 y0 vx vy where "x0 = vec_x (position b)" and "y0 = vec_y (position b)"
    and "vx = vec_x (versor b)" and "vy = vec_y (versor b)"
  note defs = x0_def y0_def vx_def vy_def
  have vx: "vx \<noteq> 0" using assms(5) by (auto simp: defs)
  have "\<bar>targetX + - x0\<bar> \<le> 2 powi 31" using assms(1,3) by (simp add: defs)
  from round32_bounded [OF this] obtain d
    where d: "round32 (targetX + - x0) = Finite d" "\<bar>d\<bar> \<le> 2 powi 31" by auto
  have "\<bar>vy\<bar> / \<bar>vx\<bar> \<le> 2 ^ 30 / (1 / 2 ^ 30)"
    using assms(4,5) by (intro frac_le) (simp_all add: defs)
  then have "\<bar>vy / vx\<bar> \<le> 2 powi 60" by simp
  from round32_bounded [OF this] obtain q
    where q: "round32 (vy / vx) = Finite q" "\<bar>q\<bar> \<le> 2 powi 60" by auto
  have "\<bar>d\<bar> * \<bar>q\<bar> \<le> 2 powi 31 * 2 powi 60"
    using d(2) q(2) by (intro mult_mono) simp_all
  then have "\<bar>d * q\<bar> \<le> 2 powi 91" by (simp add: abs_mult)
  from round32_bounded [OF this] obtain p
    where p: "round32 (d * q) = Finite p" "\<bar>p\<bar> \<le> 2 powi 91" by auto
  have "\<bar>y0 + p\<bar> \<le> 2 powi 92" using assms(2) p(2) by (simp add: defs)
  from round32_bounded [OF this] obtain r where r: "round32 (y0 + p) = Finite r" by auto
  have "y_raw_f32 (ball_f32 b) (Finite targetX) = Finite r"
    using vx d(1) q(1) p(1) r
    by (simp add: y_raw_f32_def f32_sub_def Let_def defs [symmetric])
  then show ?thesis by simp
qed

lemma round32_bounded_error:
  assumes "\<bar>x\<bar> \<le> 2 powi k" and "- 126 \<le> k" and "k \<le> 126"
  shows "\<exists>r. round32 x = Finite r \<and> \<bar>r\<bar> \<le> 2 powi k \<and> \<bar>r - x\<bar> \<le> 2 powi (k - 24)"
proof -
  from round32_bounded [OF assms(1,2)] assms(3) obtain r
    where r: "round32 x = Finite r" "\<bar>r\<bar> \<le> 2 powi k" by auto
  have "(2::real) powi k < 2 powi (k + 1)" by (intro power_int_strict_increasing) simp_all
  with assms(1) have "\<bar>x\<bar> < 2 powi (k + 1)" by simp
  from round32_error_below [OF r(1) this] assms(2) have "\<bar>r - x\<bar> \<le> 2 powi (k - 24)" by simp
  with r show ?thesis by blast
qed

lemma y_raw_f32_error:
  assumes "\<bar>targetX - vec_x (position b)\<bar> \<le> 1024"
    and "\<bar>vec_y (versor b)\<bar> \<le> 4 * \<bar>vec_x (versor b)\<bar>" and "vec_x (versor b) \<noteq> 0"
    and "0 \<le> vec_y (position b)" and "vec_y (position b) \<le> 450"
  shows "\<exists>yr. y_raw_f32 (ball_f32 b) (Finite targetX) = Finite yr
     \<and> \<bar>yr - (vec_y (position b)
               + (targetX - vec_x (position b)) * (vec_y (versor b) / vec_x (versor b)))\<bar>
         \<le> 1 / 2 ^ 10"
proof -
  define x0 y0 vx vy where "x0 = vec_x (position b)" and "y0 = vec_y (position b)"
    and "vx = vec_x (versor b)" and "vy = vec_y (versor b)"
  note defs = x0_def y0_def vx_def vy_def
  define D Q where "D = targetX - x0" and "Q = vy / vx"
  have vx: "vx \<noteq> 0" using assms(3) by (simp add: defs)
  have D: "\<bar>D\<bar> \<le> 2 powi 10" using assms(1) by (simp add: defs D_def)
  from round32_bounded_error [OF this] obtain d
    where d: "round32 D = Finite d" "\<bar>d\<bar> \<le> 2 powi 10" "\<bar>d - D\<bar> \<le> 2 powi (10 - 24)" by auto
  have "\<bar>vy\<bar> / \<bar>vx\<bar> \<le> 4"
    using assms(2) vx by (simp add: defs divide_le_eq)
  then have Q: "\<bar>Q\<bar> \<le> 2 powi 2" by (simp add: Q_def)
  from round32_bounded_error [OF this] obtain q
    where q: "round32 Q = Finite q" "\<bar>q\<bar> \<le> 2 powi 2" "\<bar>q - Q\<bar> \<le> 2 powi (2 - 24)" by auto
  have "\<bar>d\<bar> * \<bar>q\<bar> \<le> 2 powi 10 * 2 powi 2"
    using d(2) q(2) by (intro mult_mono) simp_all
  then have dq: "\<bar>d * q\<bar> \<le> 2 powi 12" by (simp add: abs_mult)
  from round32_bounded_error [OF this] obtain p
    where p: "round32 (d * q) = Finite p" "\<bar>p\<bar> \<le> 2 powi 12" "\<bar>p - d * q\<bar> \<le> 2 powi (12 - 24)"
    by auto
  have "\<bar>y0 + p\<bar> \<le> 2 powi 13" using assms(4,5) p(2) by (simp add: defs)
  from round32_bounded_error [OF this] obtain r
    where r1: "round32 (y0 + p) = Finite r" by auto
  have "\<bar>y0 + p\<bar> < 2 powi 13" using assms(4,5) p(2) by (simp add: defs)
  from round32_error_below [OF r1 this]
  have r: "round32 (y0 + p) = Finite r" "\<bar>r - (y0 + p)\<bar> \<le> 2 powi (13 - 25)"
    using r1 by simp_all
  have y: "y_raw_f32 (ball_f32 b) (Finite targetX) = Finite r"
    using vx d(1) q(1) p(1) r(1)
    by (simp add: y_raw_f32_def f32_sub_def Let_def defs [symmetric] D_def Q_def)
  have "d * q - D * Q = d * (q - Q) + Q * (d - D)" by (simp add: algebra_simps)
  then have "\<bar>d * q - D * Q\<bar> \<le> \<bar>d\<bar> * \<bar>q - Q\<bar> + \<bar>Q\<bar> * \<bar>d - D\<bar>"
    by (simp add: abs_mult [symmetric]) 
  also have "\<dots> \<le> 2 powi 10 * 2 powi (2 - 24) + 2 powi 2 * 2 powi (10 - 24)"
    using d(2,3) q(3) Q by (intro add_mono mult_mono) simp_all
  finally have e1: "\<bar>d * q - D * Q\<bar> \<le> 1 / 2 ^ 11" by simp
  have "r - (y0 + D * Q) = (r - (y0 + p)) + (p - d * q) + (d * q - D * Q)" by simp
  then have "\<bar>r - (y0 + D * Q)\<bar> \<le> \<bar>r - (y0 + p)\<bar> + \<bar>p - d * q\<bar> + \<bar>d * q - D * Q\<bar>"
    by linarith
  also have "\<dots> \<le> 2 powi (13 - 25) + 2 powi (12 - 24) + 1 / 2 ^ 11"
    using r(2) p(3) e1 by (intro add_mono)
  finally have "\<bar>r - (y0 + D * Q)\<bar> \<le> 1 / 2 ^ 10" by simp
  with y show ?thesis by (simp add: defs D_def Q_def)
qed

text \<open>
  Claim C3, amended. For every ball and every target line for which \<^verbatim>\<open>y_raw\<close>, the binary32
  value of line 423, is finite, \<^verbatim>\<open>predictBallY\<close> returns a finite value in
  \<open>[0, screenHeight]\<close>, and the horizontal component of the direction is then not zero.
  When \<^verbatim>\<open>y_raw\<close> is not finite, after a division by zero or an overflow, the function
  returns NaN. \<^verbatim>\<open>y_raw\<close> is finite, and the result in \<open>[0, screenHeight]\<close>, whenever the
  coordinates of the ball, the target line and the vertical component of the direction are
  at most \<open>2^30\<close> in magnitude and the horizontal component is at least \<open>2^-30\<close>. The claim
  as stated, for every direction with a horizontal component other than zero, fails where
  the product of line 422 overflows.
\<close>

theorem predictBallY_f32_in_screen:
  "(y_raw_f32 b targetX = Finite yr \<longrightarrow>
      (\<exists>v. predictBallY_f32 b targetX = Finite v \<and> 0 \<le> v \<and> v \<le> real_of_int screenHeight)
      \<and> f32_x (versor_f32 b) \<noteq> Finite 0)
   \<and> (\<not> f32_finite (y_raw_f32 b targetX) \<longrightarrow> predictBallY_f32 b targetX = NaN)
   \<and> (\<bar>vec_x (position c)\<bar> \<le> 2 ^ 30 \<and> \<bar>vec_y (position c)\<bar> \<le> 2 ^ 30 \<and> \<bar>t\<bar> \<le> 2 ^ 30
       \<and> \<bar>vec_y (versor c)\<bar> \<le> 2 ^ 30 \<and> 1 / 2 ^ 30 \<le> \<bar>vec_x (versor c)\<bar> \<longrightarrow>
      (\<exists>v. predictBallY_f32 (ball_f32 c) (Finite t) = Finite v
           \<and> 0 \<le> v \<and> v \<le> real_of_int screenHeight))"
proof (intro conjI impI)
  assume y: "y_raw_f32 b targetX = Finite yr"
  from predictBallY_f32_fold [OF y]
  show "\<exists>v. predictBallY_f32 b targetX = Finite v \<and> 0 \<le> v \<and> v \<le> real_of_int screenHeight"
    by (auto simp: screenHeight_def)
  from y y_raw_f32_zero_divisor [of b targetX] show "f32_x (versor_f32 b) \<noteq> Finite 0"
    by auto
next
  assume "\<not> f32_finite (y_raw_f32 b targetX)"
  then show "predictBallY_f32 b targetX = NaN" by (rule predictBallY_f32_not_finite)
next
  assume "\<bar>vec_x (position c)\<bar> \<le> 2 ^ 30 \<and> \<bar>vec_y (position c)\<bar> \<le> 2 ^ 30 \<and> \<bar>t\<bar> \<le> 2 ^ 30
       \<and> \<bar>vec_y (versor c)\<bar> \<le> 2 ^ 30 \<and> 1 / 2 ^ 30 \<le> \<bar>vec_x (versor c)\<bar>"
  then have "f32_finite (y_raw_f32 (ball_f32 c) (Finite t))"
    by (intro y_raw_f32_finite) simp_all
  then obtain r where "y_raw_f32 (ball_f32 c) (Finite t) = Finite r"
    by (cases "y_raw_f32 (ball_f32 c) (Finite t)") simp_all
  from predictBallY_f32_fold [OF this]
  show "\<exists>v. predictBallY_f32 (ball_f32 c) (Finite t) = Finite v
           \<and> 0 \<le> v \<and> v \<le> real_of_int screenHeight"
    by (auto simp: screenHeight_def)
qed

theorem predictBallY_f32_in_screen_witness:
  "y_raw_f32 (ball_f32 steep_ball) (Finite 750) = Finite 1275
   \<and> predictBallY_f32 (ball_f32 steep_ball) (Finite 750) = Finite 375
   \<and> (0::real) \<le> 375 \<and> 375 \<le> real_of_int screenHeight
   \<and> f32_x (versor_f32 (ball_f32 steep_ball)) \<noteq> Finite 0
   \<and> \<not> f32_finite (y_raw_f32 (ball_f32 overflow_ball) (Finite 750))
   \<and> predictBallY_f32 (ball_f32 overflow_ball) (Finite 750) = NaN
   \<and> \<bar>vec_x (position steep_ball)\<bar> \<le> 2 ^ 30 \<and> \<bar>vec_y (position steep_ball)\<bar> \<le> 2 ^ 30
   \<and> \<bar>750 :: real\<bar> \<le> 2 ^ 30 \<and> \<bar>vec_y (versor steep_ball)\<bar> \<le> 2 ^ 30
   \<and> 1 / 2 ^ 30 \<le> \<bar>vec_x (versor steep_ball)\<bar>"
  using predictBallY_f32_in_screen
      [of "ball_f32 steep_ball" "Finite 750" 1275 steep_ball 750]
    predictBallY_f32_in_screen [of "ball_f32 overflow_ball" "Finite 750" 0 steep_ball 750]
  by (simp add: y_raw_f32_steep_ball predictBallY_f32_steep_ball y_raw_f32_overflow_ball
      screenHeight_def) (simp add: steep_ball_def)

theorem predictBallY_f32_overflow_counterexample:
  "f32_x (versor_f32 (ball_f32 overflow_ball)) \<noteq> Finite 0
   \<and> predictBallY_f32 (ball_f32 overflow_ball) (Finite 750) = NaN
   \<and> \<not> (f32_le (Finite 0) (predictBallY_f32 (ball_f32 overflow_ball) (Finite 750))
         \<and> f32_le (predictBallY_f32 (ball_f32 overflow_ball) (Finite 750))
              (Finite (real_of_int screenHeight)))"
proof -
  have "predictBallY_f32 (ball_f32 overflow_ball) (Finite 750) = NaN"
    by (rule predictBallY_f32_not_finite) (simp add: y_raw_f32_overflow_ball)
  moreover have "f32_x (versor_f32 (ball_f32 overflow_ball)) \<noteq> Finite 0"
    by (simp add: overflow_ball_def)
  ultimately show ?thesis by simp
qed

text \<open>
  Claim C2, amended. Let the ball be at \<open>(x0, y0)\<close> with \<open>y0\<close> in \<open>[0, screenHeight]\<close>, its
  direction \<open>(dx, dy)\<close> with \<open>dx\<close> not zero, \<open>targetX\<close> on the side the ball moves to, and
  \<^verbatim>\<open>y_raw\<close> of line 423 finite. Then the simulation of the straight course with reflections
  at \<open>y = 0\<close> and \<open>y = screenHeight\<close> ends on the line \<open>x = targetX\<close>, whatever the number of
  bounces, at the coordinate of the specification's algorithm in exact arithmetic, and the
  value \<^verbatim>\<open>predictBallY\<close> returns differs from it by at most the rounding error of
  \<^verbatim>\<open>y_raw\<close>, its distance from \<open>y0 + (targetX - x0) * (dy / dx)\<close>, plus \<open>2^-14\<close>. Where
  \<open>targetX\<close> is at most 1024 away from \<open>x0\<close> and \<open>dy\<close> is at most four times \<open>dx\<close> in
  magnitude, the two differ by at most \<open>2^-9\<close>. The claim as stated, equality, fails where
  \<^verbatim>\<open>y_raw\<close> is rounded.
\<close>

theorem predictBallY_f32_near_simulation:
  assumes "0 \<le> vec_y (position b)" and "vec_y (position b) \<le> real_of_int screenHeight"
    and "vec_x (versor b) \<noteq> 0"
    and "0 \<le> (targetX - vec_x (position b)) / vec_x (versor b)"
    and "bounce_fuel b targetX \<le> fuel"
    and "y_raw_f32 (ball_f32 b) (Finite targetX) = Finite yr"
  shows "\<exists>v s. predictBallY_f32 (ball_f32 b) (Finite targetX) = Finite v
      \<and> simulate_bounces fuel (position b) (versor b) targetX = Some s
      \<and> s = spec_predictBallY b targetX
      \<and> \<bar>v - s\<bar> \<le> \<bar>yr - (vec_y (position b)
                    + (targetX - vec_x (position b)) * (vec_y (versor b) / vec_x (versor b)))\<bar>
                  + 1 / 2 ^ 14
      \<and> (\<bar>targetX - vec_x (position b)\<bar> \<le> 1024
           \<and> \<bar>vec_y (versor b)\<bar> \<le> 4 * \<bar>vec_x (versor b)\<bar> \<longrightarrow> \<bar>v - s\<bar> \<le> 1 / 2 ^ 9)"
proof -
  define Y where "Y = vec_y (position b)
      + (targetX - vec_x (position b)) * (vec_y (versor b) / vec_x (versor b))"
  from predictBallY_f32_fold [OF assms(6)] obtain v
    where v: "predictBallY_f32 (ball_f32 b) (Finite targetX) = Finite v"
      "\<bar>v - tri_fold yr\<bar> \<le> 1 / 2 ^ 14" by blast
  have s: "simulate_bounces fuel (position b) (versor b) targetX = Some (tri_fold Y)"
    using exact_predictBallY_equals_simulation [OF assms(1-5)]
    by (simp add: predictBallY_tri_fold Y_def)
  have sp: "tri_fold Y = spec_predictBallY b targetX"
    by (simp add: tri_fold_def spec_predictBallY_def Y_def Let_def not_le [symmetric])
  have "\<bar>v - tri_fold Y\<bar> \<le> \<bar>v - tri_fold yr\<bar> + \<bar>tri_fold yr - tri_fold Y\<bar>" by simp
  also have "\<dots> \<le> 1 / 2 ^ 14 + \<bar>yr - Y\<bar>"
    using v(2) tri_fold_lipschitz [of yr Y] by simp
  finally have d: "\<bar>v - tri_fold Y\<bar> \<le> \<bar>yr - Y\<bar> + 1 / 2 ^ 14" by simp
  have n: "\<bar>v - tri_fold Y\<bar> \<le> 1 / 2 ^ 9"
    if "\<bar>targetX - vec_x (position b)\<bar> \<le> 1024
        \<and> \<bar>vec_y (versor b)\<bar> \<le> 4 * \<bar>vec_x (versor b)\<bar>"
  proof -
    have "vec_y (position b) \<le> 450" using assms(2) by (simp add: screenHeight_def)
    with that assms(1,3) y_raw_f32_error [of targetX b]
    have "\<bar>yr - Y\<bar> \<le> 1 / 2 ^ 10" by (auto simp: assms(6) Y_def)
    with d show ?thesis by simp
  qed
  from v(1) s sp d n show ?thesis unfolding Y_def by blast
qed

theorem predictBallY_f32_near_simulation_witness:
  "0 \<le> vec_y (position steep_ball) \<and> vec_y (position steep_ball) \<le> real_of_int screenHeight
   \<and> vec_x (versor steep_ball) \<noteq> 0
   \<and> 0 \<le> (750 - vec_x (position steep_ball)) / vec_x (versor steep_ball)
   \<and> bounce_fuel steep_ball 750 \<le> 5
   \<and> y_raw_f32 (ball_f32 steep_ball) (Finite 750) = Finite 1275
   \<and> \<bar>750 - vec_x (position steep_ball)\<bar> \<le> 1024
   \<and> \<bar>vec_y (versor steep_ball)\<bar> \<le> 4 * \<bar>vec_x (versor steep_ball)\<bar>
   \<and> predictBallY_f32 (ball_f32 steep_ball) (Finite 750) = Finite 375
   \<and> simulate_bounces 5 (position steep_ball) (versor steep_ball) 750 = Some 375
   \<and> spec_predictBallY steep_ball 750 = 375"
proof -
  have f: "bounce_fuel steep_ball 750 \<le> 5"
    by (simp add: bounce_fuel_def steep_ball_def screenHeight_def)
  have h: "0 \<le> vec_y (position steep_ball)"
    "vec_y (position steep_ball) \<le> real_of_int screenHeight"
    "vec_x (versor steep_ball) \<noteq> 0"
    "0 \<le> (750 - vec_x (position steep_ball)) / vec_x (versor steep_ball)"
    by (simp_all add: steep_ball_def screenHeight_def)
  have g: "\<bar>750 - vec_x (position steep_ball)\<bar> \<le> 1024"
    "\<bar>vec_y (versor steep_ball)\<bar> \<le> 4 * \<bar>vec_x (versor steep_ball)\<bar>"
    by (simp_all add: steep_ball_def)
  show ?thesis
    using h f g predictBallY_f32_near_simulation [OF h f y_raw_f32_steep_ball]
      simulate_steep_ball
    by (auto simp: y_raw_f32_steep_ball predictBallY_f32_steep_ball)
qed

theorem predictBallY_f32_differs_counterexample:
  "0 \<le> vec_y (position fast_ball) \<and> vec_y (position fast_ball) \<le> real_of_int screenHeight
   \<and> vec_x (versor fast_ball) \<noteq> 0
   \<and> 0 \<le> (750 - vec_x (position fast_ball)) / vec_x (versor fast_ball)
   \<and> predictBallY_f32 (ball_f32 fast_ball) (Finite 750) = Finite 156
   \<and> simulate_bounces (bounce_fuel fast_ball 750) (position fast_ball) (versor fast_ball) 750
       = Some 125"
proof -
  have h: "0 \<le> vec_y (position fast_ball)"
    "vec_y (position fast_ball) \<le> real_of_int screenHeight"
    "vec_x (versor fast_ball) \<noteq> 0"
    "0 \<le> (750 - vec_x (position fast_ball)) / vec_x (versor fast_ball)"
    by (simp_all add: fast_ball_def screenHeight_def)
  have "predictBallY fast_ball 750 = 125"
    by (simp add: predictBallY_def fast_ball_def fmod_def truncf_def screenHeight_def Let_def)
  with exact_predictBallY_equals_simulation [OF h order_refl]
  have "simulate_bounces (bounce_fuel fast_ball 750) (position fast_ball) (versor fast_ball) 750
      = Some 125" by simp
  moreover have "predictBallY_f32 (ball_f32 fast_ball) (Finite 750) = Finite 156"
    by (simp add: predictBallY_f32_unfold y_raw_f32_fast_ball fmod_def truncf_def Let_def)
  ultimately show ?thesis using h by simp
qed

section \<open>The ball under the methods of the game\<close>

lemma ball_handleAIPaddleMovement [simp]: "ball (handleAIPaddleMovement f g) = ball g"
  by (simp add: handleAIPaddleMovement_def Let_def split: option.splits prod.splits)

lemma scores_handleAIPaddleMovement [simp]:
  "scoreLeft (handleAIPaddleMovement f g) = scoreLeft g"
  "scoreRight (handleAIPaddleMovement f g) = scoreRight g"
  by (simp_all add: handleAIPaddleMovement_def Let_def split: option.splits prod.splits)

lemma ball_getSpeedRecord [simp]: "ball (getSpeedRecord f g) = ball g"
  by (simp add: getSpeedRecord_def)

lemma ball_resetScore [simp]: "ball (resetScore g) = ball g"
  by (simp add: resetScore_def)

lemma ball_incrementScore [simp]: "ball (incrementScore l g) = ball g"
  by (simp add: incrementScore_def)

lemma versor_serveBall [simp]:
  "versor (ball (serveBall r g)) = \<lparr>vec_x = 1, vec_y = randomValidVersor r\<rparr>"
  by (simp add: serveBall_def RIGHT_def)

lemma speed_serveBall [simp]: "speed (ball (serveBall r g)) = 400"
  by (simp add: serveBall_def)

lemma ball_resetRound [simp]: "ball (resetRound r g) = ball (serveBall r g)"
  by (simp add: resetRound_def)

lemma scores_resetRound [simp]:
  "scoreLeft (resetRound r g) = scoreLeft g" "scoreRight (resetRound r g) = scoreRight g"
  by (simp_all add: resetRound_def serveBall_def)

lemma ball_resetGame [simp]: "ball (resetGame r g) = ball (serveBall r g)"
  by (simp add: resetGame_def Let_def serveBall_def)

lemma versor_init [simp]:
  "versor (ball (init r)) = \<lparr>vec_x = 1, vec_y = randomValidVersor r\<rparr>"
  by (simp add: init_def RIGHT_def)

lemma speed_init [simp]: "speed (ball (init r)) = 400"
  by (simp add: init_def)

lemma ball_readInput:
  "ball (readInput inp g) =
     (if rPressed inp then ball (serveBall (rand_resetGame inp) g) else ball g)"
  by (simp add: readInput_def Let_def serveBall_def split: prod.splits)

lemma ball_handlePointScoring:
  "ball (handlePointScoring r g) =
     (if ball_out_right g \<or> ball_out_left g then ball (serveBall r g) else ball g)"
  by (simp add: handlePointScoring_def ball_out_right_def ball_out_left_def serveBall_def)

lemma versor_x_paddle_hit:
  "vec_x (versor (ball (handlePaddleBallCollision coll p g))) =
     (if coll (position (ball g)) (radius (ball g)) (toRectangle p)
      then - vec_x (versor (ball g)) else vec_x (versor (ball g)))"
  by (simp add: handlePaddleBallCollision_def Let_def)

lemma speed_paddle_hit:
  "speed (ball (handlePaddleBallCollision coll p g)) =
     (if coll (position (ball g)) (radius (ball g)) (toRectangle p)
      then speed (ball g)
           + 20 * (speed (ball g) / 400)
             * \<bar>(vec_y (position (ball g)) - vec_y (getCenter p)) / (vec_y (size p) / 2)\<bar>
      else speed (ball g))"
  by (simp add: handlePaddleBallCollision_def Let_def)

lemma speed_paddle_hit_mono:
  "0 \<le> speed (ball g) \<Longrightarrow> speed (ball g) \<le> speed (ball (handlePaddleBallCollision coll p g))"
  by (simp add: speed_paddle_hit)

lemma ball_wall_hit:
  "versor (ball (handleWallBallCollision g)) =
     (if vec_y (position (ball g)) - radius (ball g) \<le> 0
         \<or> vec_y (position (ball g)) + radius (ball g) \<ge> real_of_int screenHeight
      then (versor (ball g))\<lparr>vec_y := - vec_y (versor (ball g))\<rparr> else versor (ball g))"
  "speed (ball (handleWallBallCollision g)) = speed (ball g)"
  "position (ball (handleWallBallCollision g)) = position (ball g)"
  "radius (ball (handleWallBallCollision g)) = radius (ball g)"
  by (simp_all add: handleWallBallCollision_def)

lemma Ball_update_fields [simp]:
  "versor (Ball_update dt b) = versor b" "speed (Ball_update dt b) = speed b"
  "radius (Ball_update dt b) = radius b"
  by (simp_all add: Ball_update_def)

lemma hit_state_simps:
  "position (ball hit_state) = \<lparr>vec_x = 745, vec_y = 225\<rparr>"
  "versor (ball hit_state) = \<lparr>vec_x = 1, vec_y = 1 / 2\<rparr>"
  "radius (ball hit_state) = 7" "speed (ball hit_state) = 400"
  "position (rightPaddle hit_state) = \<lparr>vec_x = 750, vec_y = 150\<rparr>"
  "size (rightPaddle hit_state) = \<lparr>vec_x = 10, vec_y = 100\<rparr>"
  by (simp_all add: hit_state_def init_def RIGHT_def randomValidVersor_def)

section \<open>Paddle hits\<close>

text \<open>
  Claim C5. When the collision test holds, \<^verbatim>\<open>handlePaddleBallCollision\<close> does exactly
  this: the horizontal component of the ball's direction is multiplied by \<open>-1\<close>; the
  vertical component becomes \<open>(ball.y - paddleCenter.y) / (paddle.size.y / 2)\<close>; the speed
  grows by \<open>20 * (speed / 400) * |versor.y|\<close>, with the vertical component just assigned.
  The position and the radius of the ball and the rest of the game stay as they are.
\<close>

theorem paddle_hit_effect:
  assumes "coll (position (ball g)) (radius (ball g)) (toRectangle p)"
  shows "vec_x (versor (ball (handlePaddleBallCollision coll p g)))
           = vec_x (versor (ball g)) * (- 1)
    \<and> vec_y (versor (ball (handlePaddleBallCollision coll p g)))
           = (vec_y (position (ball g)) - vec_y (getCenter p)) / (vec_y (size p) / 2)
    \<and> speed (ball (handlePaddleBallCollision coll p g))
           = speed (ball g)
             + 20 * (speed (ball g) / 400)
               * \<bar>vec_y (versor (ball (handlePaddleBallCollision coll p g)))\<bar>
    \<and> position (ball (handlePaddleBallCollision coll p g)) = position (ball g)
    \<and> radius (ball (handlePaddleBallCollision coll p g)) = radius (ball g)
    \<and> (handlePaddleBallCollision coll p g)\<lparr>ball := ball g\<rparr> = g"
  using assms by (simp add: handlePaddleBallCollision_def Let_def)

theorem paddle_hit_effect_witness:
  "box_overlap (position (ball hit_state)) (radius (ball hit_state))
      (toRectangle (rightPaddle hit_state))
   \<and> versor (ball (handlePaddleBallCollision box_overlap (rightPaddle hit_state) hit_state))
       = \<lparr>vec_x = - 1, vec_y = 1 / 2\<rparr>
   \<and> speed (ball (handlePaddleBallCollision box_overlap (rightPaddle hit_state) hit_state))
       = 410"
proof -
  have c: "box_overlap (position (ball hit_state)) (radius (ball hit_state))
      (toRectangle (rightPaddle hit_state))"
    by (simp add: box_overlap_def toRectangle_def hit_state_simps)
  show ?thesis
    using c paddle_hit_effect [of box_overlap hit_state "rightPaddle hit_state"]
    by (simp add: hit_state_simps getCenter_def handlePaddleBallCollision_def Let_def)
qed

section \<open>Scoring\<close>

lemma sint_increment:
  "sint w < 2147483647 \<Longrightarrow> sint (w + 1) = sint w + 1" for w :: "32 word"
  using sint_ge [of w] by (simp add: sint_word_ariths signed_take_bit_int_eq_self_iff)

text \<open>
  Claim C8. When the right edge of the ball has reached \<open>screenWidth\<close>,
  \<^verbatim>\<open>handlePointScoring\<close> adds one to the left score, leaves the right score and resets the
  round once. Otherwise, when the left edge of the ball has reached \<open>0\<close>, it adds one to the
  right score, leaves the left score and resets the round once. Otherwise it changes
  nothing. The increment is that of a 32-bit \<^verbatim>\<open>int\<close>: it is the signed successor below
  \<open>2^31 - 1\<close>.
\<close>

theorem handlePointScoring_cases:
  "(ball_out_right g \<longrightarrow>
      handlePointScoring r g = resetRound r (g\<lparr>scoreLeft := scoreLeft g + 1\<rparr>)
      \<and> scoreLeft (handlePointScoring r g) = scoreLeft g + 1
      \<and> scoreRight (handlePointScoring r g) = scoreRight g
      \<and> (sint (scoreLeft g) < 2147483647 \<longrightarrow>
           sint (scoreLeft (handlePointScoring r g)) = sint (scoreLeft g) + 1))
   \<and> (\<not> ball_out_right g \<and> ball_out_left g \<longrightarrow>
      handlePointScoring r g = resetRound r (g\<lparr>scoreRight := scoreRight g + 1\<rparr>)
      \<and> scoreRight (handlePointScoring r g) = scoreRight g + 1
      \<and> scoreLeft (handlePointScoring r g) = scoreLeft g
      \<and> (sint (scoreRight g) < 2147483647 \<longrightarrow>
           sint (scoreRight (handlePointScoring r g)) = sint (scoreRight g) + 1))
   \<and> (\<not> ball_out_right g \<and> \<not> ball_out_left g \<longrightarrow> handlePointScoring r g = g)"
  by (auto simp: handlePointScoring_def ball_out_right_def ball_out_left_def incrementScore_def
      sint_increment)

lemma out_state_simps:
  "position (ball out_right_state) = \<lparr>vec_x = 795, vec_y = 100\<rparr>"
  "position (ball out_left_state) = \<lparr>vec_x = 5, vec_y = 100\<rparr>"
  "radius (ball out_right_state) = 7" "radius (ball out_left_state) = 7"
  "scoreLeft out_right_state = 0" "scoreRight out_right_state = 0"
  "scoreLeft out_left_state = 0" "scoreRight out_left_state = 0"
  by (simp_all add: out_right_state_def out_left_state_def init_def)

lemma position_serveBall [simp]:
  "position (ball (serveBall r g)) = \<lparr>vec_x = 400, vec_y = 225\<rparr>"
  by (simp add: serveBall_def screenWidth_def screenHeight_def)

theorem handlePointScoring_cases_witness:
  "ball_out_right out_right_state
   \<and> sint (scoreLeft out_right_state) < 2147483647
   \<and> scoreLeft (handlePointScoring 250 out_right_state) = 1
   \<and> sint (scoreLeft (handlePointScoring 250 out_right_state)) = 1
   \<and> scoreRight (handlePointScoring 250 out_right_state) = 0
   \<and> position (ball (handlePointScoring 250 out_right_state)) = \<lparr>vec_x = 400, vec_y = 225\<rparr>
   \<and> \<not> ball_out_right out_left_state \<and> ball_out_left out_left_state
   \<and> sint (scoreRight out_left_state) < 2147483647
   \<and> scoreRight (handlePointScoring 250 out_left_state) = 1
   \<and> sint (scoreRight (handlePointScoring 250 out_left_state)) = 1
   \<and> scoreLeft (handlePointScoring 250 out_left_state) = 0
   \<and> \<not> ball_out_right hit_state \<and> \<not> ball_out_left hit_state
   \<and> handlePointScoring 250 hit_state = hit_state"
  using handlePointScoring_cases [of out_right_state 250]
    handlePointScoring_cases [of out_left_state 250]
    handlePointScoring_cases [of hit_state 250]
  by (simp add: ball_out_right_def ball_out_left_def out_state_simps hit_state_simps
      screenWidth_def)

section \<open>The serve\<close>

lemma randomValidVersor_range:
  assumes "- 1000 \<le> r" and "r \<le> 1000"
  shows "- 1 \<le> randomValidVersor r" and "randomValidVersor r \<le> 1"
    and "randomValidVersor r \<noteq> 0"
  using assms by (simp_all add: randomValidVersor_def Let_def)

text \<open>
  Claim C10. Every serve, that of \<^verbatim>\<open>init\<close>, of \<^verbatim>\<open>resetRound\<close> and of \<^verbatim>\<open>resetGame\<close>, gives
  the ball the horizontal direction \<open>+1\<close>, towards the AI paddle, whichever side has scored.
  The vertical component is the draw from \<open>[-1000, 1000]\<close> divided by 1000, and \<open>-1\<close> when the
  draw is 0: it lies in \<open>[-1, 1]\<close> and is never 0.
\<close>

theorem serve_goes_right:
  assumes "- 1000 \<le> r" and "r \<le> 1000"
  shows "versor (ball (init r)) = \<lparr>vec_x = 1, vec_y = randomValidVersor r\<rparr>
    \<and> versor (ball (resetRound r g)) = \<lparr>vec_x = 1, vec_y = randomValidVersor r\<rparr>
    \<and> versor (ball (resetGame r g)) = \<lparr>vec_x = 1, vec_y = randomValidVersor r\<rparr>
    \<and> (ball_out_right g \<or> ball_out_left g \<longrightarrow>
         versor (ball (handlePointScoring r g)) = \<lparr>vec_x = 1, vec_y = randomValidVersor r\<rparr>)
    \<and> randomValidVersor r = (if r = 0 then - 1 else real_of_int r / 1000)
    \<and> - 1 \<le> randomValidVersor r \<and> randomValidVersor r \<le> 1 \<and> randomValidVersor r \<noteq> 0"
  using randomValidVersor_range [OF assms]
  by (simp add: ball_handlePointScoring) (simp add: randomValidVersor_def)

theorem serve_goes_right_witness:
  "- 1000 \<le> (0::int) \<and> (0::int) \<le> 1000
   \<and> versor (ball (init 0)) = \<lparr>vec_x = 1, vec_y = - 1\<rparr>
   \<and> versor (ball (resetRound 0 out_left_state)) = \<lparr>vec_x = 1, vec_y = - 1\<rparr>
   \<and> versor (ball (resetGame 0 out_left_state)) = \<lparr>vec_x = 1, vec_y = - 1\<rparr>
   \<and> ball_out_left out_left_state
   \<and> versor (ball (handlePointScoring 0 out_left_state)) = \<lparr>vec_x = 1, vec_y = - 1\<rparr>"
  using serve_goes_right [of 0 out_left_state]
  by (simp add: randomValidVersor_def ball_out_left_def out_state_simps)

section \<open>Invariants of the reachable states\<close>

lemma reachable_versor_x:
  "reachable coll g \<Longrightarrow> vec_x (versor (ball g)) = 1 \<or> vec_x (versor (ball g)) = - 1"
proof (induction rule: reachable.induct)
  case (reach_paddle_hit g p)
  then show ?case by (auto simp: versor_x_paddle_hit)
next
  case (reach_wall_hit g)
  then show ?case by (auto simp: ball_wall_hit)
qed (simp_all add: ball_readInput ball_handlePointScoring)

lemma reachable_speed: "reachable coll g \<Longrightarrow> 400 \<le> speed (ball g)"
proof (induction rule: reachable.induct)
  case (reach_paddle_hit g p)
  then have "0 \<le> speed (ball g)" by simp
  from speed_paddle_hit_mono [OF this, of coll p] reach_paddle_hit.IH show ?case by simp
qed (simp_all add: ball_readInput ball_handlePointScoring ball_wall_hit)

lemma reachable_update: "reachable coll g \<Longrightarrow> reachable coll (update coll inp g)"
  unfolding update_def Let_def
  by (intro reachable.intros)

lemma reachable_frame: "reachable coll g \<Longrightarrow> reachable coll (frame coll inp g)"
  unfolding frame_def by (intro reachable_update reach_readInput)

lemma reachable_run: "reachable coll g \<Longrightarrow> reachable coll (run coll inps g)"
  by (induction inps arbitrary: g) (simp_all add: reachable_frame)

lemma reachable_resetRound: "reachable coll g \<Longrightarrow> reachable coll (resetRound r g)"
  unfolding resetRound_def by (intro reachable.intros)

lemma reachable_resetGame: "reachable coll g \<Longrightarrow> reachable coll (resetGame r g)"
  unfolding resetGame_def Let_def by (intro reachable.intros)

lemma speed_update:
  "speed (ball (update coll inp g)) =
     (let g1 = handlePaddleBallCollision coll (leftPaddle g) g;
          g2 = handlePaddleBallCollision coll (rightPaddle g1) g1;
          g3 = handleWallBallCollision g2
      in if ball_out_right g3 \<or> ball_out_left g3 then 400 else speed (ball g2))"
  by (simp add: update_def Let_def ball_handlePointScoring ball_wall_hit)

lemma frame_speed:
  assumes "reachable coll g"
  shows "frame_resets coll inp g \<or> speed (ball g) \<le> speed (ball (frame coll inp g))"
proof (cases "frame_resets coll inp g")
  case False
  define g0 where "g0 = readInput inp g"
  define g1 where "g1 = handlePaddleBallCollision coll (leftPaddle g0) g0"
  define g2 where "g2 = handlePaddleBallCollision coll (rightPaddle g1) g1"
  define g3 where "g3 = handleWallBallCollision g2"
  from False have nr: "\<not> rPressed inp" and no: "\<not> (ball_out_right g3 \<or> ball_out_left g3)"
    by (simp_all add: frame_resets_def Let_def g0_def g1_def g2_def g3_def)
  have r0: "reachable coll g0" unfolding g0_def by (rule reach_readInput [OF assms])
  have r1: "reachable coll g1" unfolding g1_def by (rule reach_paddle_hit [OF r0])
  have "speed (ball g0) = speed (ball g)" using nr by (simp add: g0_def ball_readInput)
  moreover have "speed (ball g0) \<le> speed (ball g1)"
    unfolding g1_def using reachable_speed [OF r0] by (intro speed_paddle_hit_mono) simp
  moreover have "speed (ball g1) \<le> speed (ball g2)"
    unfolding g2_def using reachable_speed [OF r1] by (intro speed_paddle_hit_mono) simp
  moreover have "speed (ball (frame coll inp g)) = speed (ball g2)"
    using no by (simp add: frame_def speed_update Let_def g0_def g1_def g2_def g3_def)
  ultimately show ?thesis by simp
qed simp

lemma run_speed:
  "reachable coll g \<Longrightarrow>
   run_resets coll inps g \<or> speed (ball g) \<le> speed (ball (run coll inps g))"
proof (induction inps arbitrary: g)
  case Nil
  show ?case by simp
next
  case (Cons inp inps)
  from Cons.IH [OF reachable_frame [OF Cons.prems, of inp]]
    frame_speed [OF Cons.prems, of inp]
  show ?case by auto
qed

lemma frame_speed_idle:
  "frame_resets coll inp g \<or> frame_hits coll inp g
   \<or> speed (ball (frame coll inp g)) = speed (ball g)"
proof (cases "frame_resets coll inp g \<or> frame_hits coll inp g")
  case False
  define g0 where "g0 = readInput inp g"
  from False have nr: "\<not> rPressed inp"
    and g1: "handlePaddleBallCollision coll (leftPaddle g0) g0 = g0"
    by (simp_all add: frame_resets_def frame_hits_def Let_def g0_def
        handlePaddleBallCollision_def)
  from False g1 have g2: "handlePaddleBallCollision coll (rightPaddle g0) g0 = g0"
    by (simp add: frame_hits_def Let_def g0_def [symmetric])
      (simp add: handlePaddleBallCollision_def)
  from False have "\<not> (ball_out_right (handleWallBallCollision g0)
      \<or> ball_out_left (handleWallBallCollision g0))"
    by (simp add: frame_resets_def Let_def g0_def [symmetric] g1 g2)
  then have "speed (ball (frame coll inp g)) = speed (ball g0)"
    by (simp add: frame_def speed_update Let_def g0_def [symmetric] g1 g2)
  also have "\<dots> = speed (ball g)" using nr by (simp add: g0_def ball_readInput)
  finally show ?thesis by simp
qed auto

lemma idle_frame_simps:
  "\<not> frame_resets box_overlap idle_input (init 500)"
  "\<not> frame_hits box_overlap idle_input (init 500)"
  by (simp_all add: frame_resets_def frame_hits_def Let_def idle_input_def readInput_def
      getCurrentVerticalKey_def handlePaddleBallCollision_def handleWallBallCollision_def
      ball_out_right_def ball_out_left_def box_overlap_def toRectangle_def init_def
      screenWidth_def screenHeight_def KEY_UP_def KEY_DOWN_def)

lemma reachable_centre_hit:
  "reachable box_overlap (handlePaddleBallCollision box_overlap centre_paddle (init 500))"
  by (intro reachable.intros)

lemma centre_hit_simps:
  "box_overlap (position (ball (init 500))) (radius (ball (init 500)))
     (toRectangle centre_paddle)"
  "vec_x (versor (ball (init 500))) = 1"
  "vec_y (position (ball (init 500))) = 225"
  "vec_y (getCenter centre_paddle) = 200" "vec_y (size centre_paddle) = 100"
  by (simp_all add: box_overlap_def toRectangle_def getCenter_def centre_paddle_def init_def
      screenWidth_def screenHeight_def RIGHT_def)

text \<open>
  Claim C4. In every state the game can pass through, the horizontal component of the ball's
  direction is \<open>-1\<close> or \<open>+1\<close>: \<^verbatim>\<open>init\<close> and both resets set it to \<open>+1\<close>, a paddle hit
  multiplies it by \<open>-1\<close>, and nothing else writes it. The reachable states include those of
  the calls of \<^verbatim>\<open>handleAIPaddleMovement\<close>, the only caller of \<^verbatim>\<open>predictBallY\<close>, so the
  divisor \<^verbatim>\<open>ball.versor.x\<close> of the predictor is never zero: not after the serve, where both
  resets call it, and not after \<^verbatim>\<open>handlePointScoring\<close>, where \<^verbatim>\<open>update\<close> calls it. Any run
  of frames stays in the reachable states.
\<close>

theorem ball_versor_x_unit:
  assumes "reachable coll g"
  shows "(vec_x (versor (ball g)) = 1 \<or> vec_x (versor (ball g)) = - 1)
    \<and> vec_x (versor (ball g)) \<noteq> 0
    \<and> vec_x (versor (ball (init r))) = 1
    \<and> vec_x (versor (ball (resetRound r g))) = 1
    \<and> vec_x (versor (ball (resetGame r g))) = 1
    \<and> vec_x (versor (ball (handlePaddleBallCollision coll p g))) =
        (if coll (position (ball g)) (radius (ball g)) (toRectangle p)
         then vec_x (versor (ball g)) * (- 1) else vec_x (versor (ball g)))
    \<and> vec_x (versor (ball (serveBall r g))) = 1
    \<and> (let g1 = handlePaddleBallCollision coll (leftPaddle g) g;
            g2 = handlePaddleBallCollision coll (rightPaddle g1) g1;
            g3 = handleWallBallCollision g2;
            g4 = handlePointScoring (rand_resetRound inp) g3
        in vec_x (versor (ball g4)) \<noteq> 0)
    \<and> reachable coll (run coll inps g)
    \<and> (vec_x (versor (ball (run coll inps g))) = 1
        \<or> vec_x (versor (ball (run coll inps g))) = - 1)"
proof -
  have "reachable coll (handlePointScoring (rand_resetRound inp)
      (handleWallBallCollision
        (handlePaddleBallCollision coll
          (rightPaddle (handlePaddleBallCollision coll (leftPaddle g) g))
          (handlePaddleBallCollision coll (leftPaddle g) g))))"
    using assms by (intro reachable.intros)
  from reachable_versor_x [OF this] show ?thesis
    using reachable_versor_x [OF assms] reachable_run [OF assms, of inps]
      reachable_versor_x [OF reachable_run [OF assms, of inps]]
    by (auto simp: versor_x_paddle_hit Let_def)
qed

theorem ball_versor_x_unit_witness:
  "reachable box_overlap (handlePaddleBallCollision box_overlap centre_paddle (init 500))
   \<and> vec_x (versor (ball (handlePaddleBallCollision box_overlap centre_paddle (init 500)))) = - 1
   \<and> vec_x (versor (ball (handlePaddleBallCollision box_overlap centre_paddle (init 500)))) \<noteq> 0"
  using reachable_centre_hit ball_versor_x_unit [OF reachable_centre_hit]
  by (simp add: versor_x_paddle_hit centre_hit_simps)

text \<open>
  Claim C7. In every state the game can pass through the speed of the ball is at least the
  base value 400. A paddle hit does not lower it; a wall hit leaves it; \<^verbatim>\<open>handlePointScoring\<close>
  leaves it when no side is crossed and sets it to 400 with the round reset otherwise; the
  round reset and the full reset set it to 400. Over a frame, and over any sequence of
  frames, the speed does not decrease unless a frame has a reset, and it is unchanged in a
  frame with neither a reset nor a paddle hit.
\<close>

theorem ball_speed_monotone:
  assumes "reachable coll g"
  shows "400 \<le> speed (ball g)
    \<and> speed (ball g) \<le> speed (ball (handlePaddleBallCollision coll p g))
    \<and> speed (ball (handleWallBallCollision g)) = speed (ball g)
    \<and> speed (ball (handlePointScoring r g)) =
        (if ball_out_right g \<or> ball_out_left g then 400 else speed (ball g))
    \<and> speed (ball (resetRound r g)) = 400
    \<and> speed (ball (resetGame r g)) = 400
    \<and> speed (ball (init r)) = 400
    \<and> (frame_resets coll inp g \<or> speed (ball g) \<le> speed (ball (frame coll inp g)))
    \<and> (frame_resets coll inp g \<or> frame_hits coll inp g
        \<or> speed (ball (frame coll inp g)) = speed (ball g))
    \<and> 400 \<le> speed (ball (frame coll inp g))
    \<and> (run_resets coll inps g \<or> speed (ball g) \<le> speed (ball (run coll inps g)))"
  using reachable_speed [OF assms] frame_speed [OF assms, of inp]
    frame_speed_idle [of coll inp g] run_speed [OF assms, of inps]
    reachable_speed [OF reachable_frame [OF assms, of inp]]
  by (simp add: speed_paddle_hit_mono ball_wall_hit ball_handlePointScoring)

theorem ball_speed_monotone_witness:
  "reachable box_overlap (init 500)
   \<and> speed (ball (init 500)) = 400
   \<and> speed (ball (handlePaddleBallCollision box_overlap centre_paddle (init 500))) = 410
   \<and> speed (ball (init 500))
       \<le> speed (ball (handlePaddleBallCollision box_overlap centre_paddle (init 500)))
   \<and> \<not> frame_resets box_overlap idle_input (init 500)
   \<and> \<not> frame_hits box_overlap idle_input (init 500)
   \<and> speed (ball (frame box_overlap idle_input (init 500))) = 400"
  using reach_init [of box_overlap 500]
    ball_speed_monotone [OF reach_init [of box_overlap 500],
      where p = centre_paddle and inp = idle_input]
    idle_frame_simps
  by (simp add: speed_paddle_hit centre_hit_simps)

section \<open>The paddle and the screen\<close>

lemma Paddle_update_f32_fields:
  "size_f32 (Paddle_update_f32 dt p) = size_f32 p"
  "versor_f32 (Paddle_update_f32 dt p) = versor_f32 p"
  "speed_f32 (Paddle_update_f32 dt p) = speed_f32 p"
  by (simp_all add: Paddle_update_f32_def Let_def)

lemma Paddle_update_f32_position:
  "f32_x (position_f32 (Paddle_update_f32 dt p)) =
     (if axis_passes_f32 (f32_x (paddle_target_f32 dt p)) (f32_x (size_f32 p)) screenWidth
      then f32_x (paddle_target_f32 dt p) else f32_x (position_f32 p))"
  "f32_y (position_f32 (Paddle_update_f32 dt p)) =
     (if axis_passes_f32 (f32_y (paddle_target_f32 dt p)) (f32_y (size_f32 p)) screenHeight
      then f32_y (paddle_target_f32 dt p) else f32_y (position_f32 p))"
  by (simp_all add: Paddle_update_f32_def paddle_target_f32_def axis_passes_f32_def Let_def)

lemma Paddle_update_f32_in_screen:
  "paddle_in_screen_f32 p \<Longrightarrow> paddle_in_screen_f32 (Paddle_update_f32 dt p)"
  by (simp add: paddle_in_screen_f32_def Paddle_update_f32_position Paddle_update_f32_fields)

lemma f32_add_is_f32: "f32_add a b = Finite r \<Longrightarrow> is_f32 r"
  by (cases a; cases b) (simp_all add: round32_is_f32)

lemma round32_above:
  assumes "is_f32 a" and "a \<le> x" and "bound < a" and "0 < x"
  shows "\<not> f32_le (round32 x) (Finite bound)"
proof -
  have "a \<le> nearest32 x" using assms(1,2) by (rule nearest32_ge)
  with assms(3,4) show ?thesis by (simp add: round32_def)
qed

text \<open>
  Where the coordinate and the size lie on a common grid of binary32 values that reaches up
  to the bound, the sum of the test is not rounded to or below the bound from above.
\<close>

lemma sum_test_exact:
  assumes c: "is_f32 c" "0 \<le> c"
    and le: "f32_le (round32 (c + s)) (Finite bound)"
    and j: "2 powi j \<le> bound - s" "- 126 \<le> j" "j \<le> 127" "0 \<le> bound"
    and s: "s = real_of_int S * 2 powi (j - 23)"
    and b: "bound = real_of_int B * 2 powi (j - 23)" "\<bar>B + 1\<bar> < 2 ^ 24"
  shows "c + s \<le> bound"
proof (rule ccontr)
  assume "\<not> c + s \<le> bound"
  then have gt: "bound < c + s" by simp
  define g where "g = (2::real) powi (j - 23)"
  have g: "0 < g" by (simp add: g_def)
  have "2 powi j \<le> \<bar>c\<bar>" using gt j(1) by simp
  from is_f32_grid [OF c(1) this] obtain K where K: "c = real_of_int K * g"
    unfolding g_def by blast
  from gt have "real_of_int B * g < real_of_int (K + S) * g"
    by (simp add: K s b(1) g_def [symmetric] algebra_simps)
  then have "real_of_int B < real_of_int (K + S)"
    using g by (simp only: mult_less_cancel_right_pos)
  then have "B + 1 \<le> K + S" by simp
  then have "real_of_int (B + 1) \<le> real_of_int (K + S)" by (simp only: of_int_le_iff)
  then have "real_of_int (B + 1) * g \<le> real_of_int (K + S) * g"
    using g by (simp only: mult_le_cancel_right_pos)
  then have a: "real_of_int (B + 1) * g \<le> c + s"
    by (simp add: K s g_def [symmetric] algebra_simps)
  have f: "is_f32 (real_of_int (B + 1) * g)"
    unfolding g_def using b(2) j(2,3) by (intro is_f32I [of _ "B + 1" "j - 23"]) simp_all
  have "bound < real_of_int (B + 1) * g" using g by (simp add: b(1) g_def [symmetric] algebra_simps)
  moreover have "0 < c + s" using gt j(4) by simp
  ultimately show False using round32_above [OF f a] le by simp
qed

lemma axis_passes_finite:
  assumes "axis_passes_f32 c s bound" and "bound = screenWidth \<or> bound = screenHeight"
  shows "\<exists>c'. c = Finite c' \<and> 0 \<le> c'"
  using assms
  by (cases c; cases s) (auto simp: axis_passes_f32_def f32_constants)

lemma axis_passes_height:
  assumes "axis_passes_f32 (Finite c) (Finite 100) screenHeight" and "is_f32 c"
  shows "0 \<le> c \<and> c + 100 \<le> 450"
proof -
  from assms(1) have c: "0 \<le> c" and le: "f32_le (round32 (c + 100)) (Finite 450)"
    by (simp_all add: axis_passes_f32_def f32_constants)
  have "c + 100 \<le> 450"
    using assms(2) c le
    by (rule sum_test_exact [where j = 8 and S = 3276800 and B = 14745600]) simp_all
  with c show ?thesis by simp
qed

lemma axis_passes_width:
  assumes "axis_passes_f32 (Finite c) (Finite 10) screenWidth" and "is_f32 c"
  shows "0 \<le> c \<and> c + 10 \<le> 800"
proof -
  from assms(1) have c: "0 \<le> c" and le: "f32_le (round32 (c + 10)) (Finite 800)"
    by (simp_all add: axis_passes_f32_def f32_constants)
  have "c + 10 \<le> 800"
    using assms(2) c le
    by (rule sum_test_exact [where j = 9 and S = 163840 and B = 13107200]) simp_all
  with c show ?thesis by simp
qed

lemma paddle_f32_simps [simp]:
  "position_f32 (paddle_f32 p) = \<lparr>f32_x = Finite (vec_x (position p)), f32_y = Finite (vec_y (position p))\<rparr>"
  "versor_f32 (paddle_f32 p) = \<lparr>f32_x = Finite (vec_x (versor p)), f32_y = Finite (vec_y (versor p))\<rparr>"
  "speed_f32 (paddle_f32 p) = Finite (speed p)"
  "size_f32 (paddle_f32 p) = \<lparr>f32_x = Finite (vec_x (size p)), f32_y = Finite (vec_y (size p))\<rparr>"
  by (simp_all add: paddle_f32_def)

lemma normaliseVersor_f32_down:
  "normaliseVersor_f32 \<lparr>f32_x = Finite 0, f32_y = Finite 1\<rparr> = \<lparr>f32_x = Finite 0, f32_y = Finite 1\<rparr>"
  by (simp add: normaliseVersor_f32_def round32_zero round32_one f32_constants)

lemma normaliseVersor_f32_none:
  "normaliseVersor_f32 \<lparr>f32_x = Finite 0, f32_y = Finite 0\<rparr> = \<lparr>f32_x = Finite 0, f32_y = Finite 0\<rparr>"
  by (simp add: normaliseVersor_f32_def round32_zero f32_constants Let_def)

lemma low_paddle_target:
  "paddle_target_f32 (Finite (1 / 16)) (paddle_f32 low_paddle)
     = \<lparr>f32_x = Finite 750, f32_y = Finite (1435 / 4)\<rparr>"
  using round32_dyadic [of 75 "- 2"] round32_dyadic [of 1435 "- 2"]
  by (simp add: paddle_target_f32_def low_paddle_def normaliseVersor_f32_down vec_scale_f32_def
      vec_add_f32_def round32_zero round32_numeral)

lemma low_paddle_in_screen: "paddle_in_screen_f32 (paddle_f32 low_paddle)"
  by (simp add: paddle_in_screen_f32_def axis_passes_f32_def low_paddle_def f32_constants
      round32_numeral)

lemma low_paddle_update:
  "position_f32 (Paddle_update_f32 (Finite (1 / 16)) (paddle_f32 low_paddle))
     = \<lparr>f32_x = Finite 750, f32_y = Finite 340\<rparr>"
proof -
  have "f32_x (position_f32 (Paddle_update_f32 (Finite (1 / 16)) (paddle_f32 low_paddle))) = Finite 750"
    "f32_y (position_f32 (Paddle_update_f32 (Finite (1 / 16)) (paddle_f32 low_paddle))) = Finite 340"
    using round32_dyadic [of 1835 "- 2"]
    by (simp_all add: Paddle_update_f32_position low_paddle_target axis_passes_f32_def
        f32_constants round32_numeral) (simp_all add: low_paddle_def)
  then show ?thesis
    by (cases "position_f32 (Paddle_update_f32 (Finite (1 / 16)) (paddle_f32 low_paddle))") simp
qed

text \<open>
  Claim C6, amended. For every paddle whose rectangle lies in the screen as the test of
  \<^verbatim>\<open>Paddle::update\<close> evaluates it (on each axis the coordinate is not negative and the
  binary32 sum of coordinate and size does not exceed the screen bound) and every
  \<open>deltaTime\<close>, the same holds after \<^verbatim>\<open>Paddle::update\<close>. On each axis the new coordinate is
  the one tried when it passes the test, and the old coordinate otherwise: the displacement
  is dropped, the paddle is not moved to the wall. For the paddles of the game, of size
  \<open>(10, 100)\<close>, the sum of the test is exact where it matters, and the rectangle
  \<open>[x, x + 10] \<times> [y, y + 100]\<close> lies in \<open>[0, screenWidth] \<times> [0, screenHeight]\<close> after the update.
  The claim as stated, for every paddle state, fails for a paddle that starts outside the
  screen: the update leaves it outside.
\<close>

theorem Paddle_update_f32_keeps_in_screen:
  assumes "paddle_in_screen_f32 p"
  shows "paddle_in_screen_f32 (Paddle_update_f32 dt p)
    \<and> f32_x (position_f32 (Paddle_update_f32 dt p)) =
        (if axis_passes_f32 (f32_x (paddle_target_f32 dt p)) (f32_x (size_f32 p)) screenWidth
         then f32_x (paddle_target_f32 dt p) else f32_x (position_f32 p))
    \<and> f32_y (position_f32 (Paddle_update_f32 dt p)) =
        (if axis_passes_f32 (f32_y (paddle_target_f32 dt p)) (f32_y (size_f32 p)) screenHeight
         then f32_y (paddle_target_f32 dt p) else f32_y (position_f32 p))
    \<and> size_f32 (Paddle_update_f32 dt p) = size_f32 p
    \<and> (size_f32 p = \<lparr>f32_x = Finite 10, f32_y = Finite 100\<rparr>
        \<and> position_f32 p = \<lparr>f32_x = Finite x, f32_y = Finite y\<rparr> \<and> is_f32 x \<and> is_f32 y \<longrightarrow>
        (\<exists>x' y'. position_f32 (Paddle_update_f32 dt p) = \<lparr>f32_x = Finite x', f32_y = Finite y'\<rparr>
           \<and> 0 \<le> x' \<and> x' + 10 \<le> real_of_int screenWidth
           \<and> 0 \<le> y' \<and> y' + 100 \<le> real_of_int screenHeight))"
proof (intro conjI impI)
  show inv: "paddle_in_screen_f32 (Paddle_update_f32 dt p)"
    using assms by (rule Paddle_update_f32_in_screen)
  assume g: "size_f32 p = \<lparr>f32_x = Finite 10, f32_y = Finite 100\<rparr>
      \<and> position_f32 p = \<lparr>f32_x = Finite x, f32_y = Finite y\<rparr> \<and> is_f32 x \<and> is_f32 y"
  define q where "q = Paddle_update_f32 dt p"
  have sz: "f32_x (size_f32 q) = Finite 10" "f32_y (size_f32 q) = Finite 100"
    using g by (simp_all add: q_def Paddle_update_f32_fields)
  from inv have ax: "axis_passes_f32 (f32_x (position_f32 q)) (Finite 10) screenWidth"
    and ay: "axis_passes_f32 (f32_y (position_f32 q)) (Finite 100) screenHeight"
    by (simp_all add: paddle_in_screen_f32_def q_def [symmetric] sz)
  from axis_passes_finite [OF ax] obtain x' where x': "f32_x (position_f32 q) = Finite x'"
    by auto
  from axis_passes_finite [OF ay] obtain y' where y': "f32_y (position_f32 q) = Finite y'"
    by auto
  have fx: "is_f32 x'"
    using x' g f32_add_is_f32 [of "f32_x (position_f32 p)" _ x']
    by (auto simp: q_def Paddle_update_f32_position paddle_target_f32_def vec_add_f32_def
        split: if_splits)
  have fy: "is_f32 y'"
    using y' g f32_add_is_f32 [of "f32_y (position_f32 p)" _ y']
    by (auto simp: q_def Paddle_update_f32_position paddle_target_f32_def vec_add_f32_def
        split: if_splits)
  have "0 \<le> x' \<and> x' + 10 \<le> 800" using ax fx unfolding x' by (rule axis_passes_width)
  moreover have "0 \<le> y' \<and> y' + 100 \<le> 450" using ay fy unfolding y' by (rule axis_passes_height)
  moreover have "position_f32 q = \<lparr>f32_x = Finite x', f32_y = Finite y'\<rparr>"
    using x' y' by (cases "position_f32 q") simp
  ultimately show "\<exists>x' y'. position_f32 (Paddle_update_f32 dt p) = \<lparr>f32_x = Finite x', f32_y = Finite y'\<rparr>
           \<and> 0 \<le> x' \<and> x' + 10 \<le> real_of_int screenWidth
           \<and> 0 \<le> y' \<and> y' + 100 \<le> real_of_int screenHeight"
    unfolding q_def by (auto simp: screenWidth_def screenHeight_def)
qed (simp_all add: Paddle_update_f32_position Paddle_update_f32_fields)

theorem Paddle_update_f32_keeps_in_screen_witness:
  "paddle_in_screen_f32 (paddle_f32 low_paddle)
   \<and> size_f32 (paddle_f32 low_paddle) = \<lparr>f32_x = Finite 10, f32_y = Finite 100\<rparr>
   \<and> position_f32 (paddle_f32 low_paddle) = \<lparr>f32_x = Finite 750, f32_y = Finite 340\<rparr>
   \<and> is_f32 750 \<and> is_f32 340
   \<and> paddle_target_f32 (Finite (1 / 16)) (paddle_f32 low_paddle)
       = \<lparr>f32_x = Finite 750, f32_y = Finite (1435 / 4)\<rparr>
   \<and> paddle_in_screen_f32 (Paddle_update_f32 (Finite (1 / 16)) (paddle_f32 low_paddle))
   \<and> position_f32 (Paddle_update_f32 (Finite (1 / 16)) (paddle_f32 low_paddle))
       = \<lparr>f32_x = Finite 750, f32_y = Finite 340\<rparr>"
proof -
  have f: "is_f32 750" "is_f32 340"
    using is_f32_of_int [of 750] is_f32_of_int [of 340] by simp_all
  have s: "size_f32 (paddle_f32 low_paddle) = \<lparr>f32_x = Finite 10, f32_y = Finite 100\<rparr>"
    "position_f32 (paddle_f32 low_paddle) = \<lparr>f32_x = Finite 750, f32_y = Finite 340\<rparr>"
    by (simp_all add: low_paddle_def)
  show ?thesis
    using f s low_paddle_in_screen low_paddle_target low_paddle_update
      Paddle_update_f32_keeps_in_screen [OF low_paddle_in_screen, of "Finite (1 / 16)" 750 340]
    by simp
qed

theorem Paddle_update_f32_out_of_screen_counterexample:
  "position_f32 (Paddle_update_f32 (Finite (1 / 64)) (paddle_f32 stray_paddle))
     = \<lparr>f32_x = Finite 50, f32_y = Finite (- 10)\<rparr>
   \<and> \<not> paddle_in_screen_f32 (Paddle_update_f32 (Finite (1 / 64)) (paddle_f32 stray_paddle))"
proof -
  have t: "paddle_target_f32 (Finite (1 / 64)) (paddle_f32 stray_paddle)
     = \<lparr>f32_x = Finite 50, f32_y = Finite (- 10)\<rparr>"
    by (simp add: paddle_target_f32_def stray_paddle_def normaliseVersor_f32_none
        vec_scale_f32_def vec_add_f32_def round32_zero round32_numeral round32_neg_numeral)
  have "f32_x (position_f32 (Paddle_update_f32 (Finite (1 / 64)) (paddle_f32 stray_paddle))) = Finite 50"
    "f32_y (position_f32 (Paddle_update_f32 (Finite (1 / 64)) (paddle_f32 stray_paddle))) = Finite (- 10)"
    by (simp_all add: Paddle_update_f32_position t axis_passes_f32_def f32_constants
        round32_numeral) (simp_all add: stray_paddle_def)
  then have p: "position_f32 (Paddle_update_f32 (Finite (1 / 64)) (paddle_f32 stray_paddle))
     = \<lparr>f32_x = Finite 50, f32_y = Finite (- 10)\<rparr>"
    by (cases "position_f32 (Paddle_update_f32 (Finite (1 / 64)) (paddle_f32 stray_paddle))") simp
  then show ?thesis
    by (simp add: paddle_in_screen_f32_def axis_passes_f32_def f32_constants)
qed

text \<open>
  For a paddle as tall as the screen the test lets a step of \<open>2^-20\<close> pass, because
  \<open>2^-20 + 450\<close> is rounded to 450: the bottom edge is then below the screen by less than the
  spacing of binary32 at 450. This is why the amended claim speaks of the test.
\<close>

lemma round32_just_above_450: "round32 (1 / 1048576 + 450) = Finite 450"
proof -
  have "nearest32 (1 / 1048576 + 450) = 450"
    using nearest32_eval [of 8 "1 / 1048576 + 450"] by (simp add: round_half_even_def Let_def)
  then show ?thesis by (simp add: round32_def)
qed

lemma tall_paddle_update:
  "paddle_in_screen_f32 (paddle_f32 tall_paddle)"
  "position_f32 (Paddle_update_f32 (Finite (1 / 1048576)) (paddle_f32 tall_paddle))
     = \<lparr>f32_x = Finite 50, f32_y = Finite (1 / 1048576)\<rparr>"
  "paddle_in_screen_f32 (Paddle_update_f32 (Finite (1 / 1048576)) (paddle_f32 tall_paddle))"
  "\<not> (1 / 1048576 + vec_y (size tall_paddle) \<le> real_of_int screenHeight)"
proof -
  show a: "paddle_in_screen_f32 (paddle_f32 tall_paddle)"
    by (simp add: paddle_in_screen_f32_def axis_passes_f32_def tall_paddle_def f32_constants
        round32_numeral)
  have r: "round32 (1 / 1048576) = Finite (1 / 1048576)"
    using round32_dyadic [of 1 "- 20"] by simp
  have t: "paddle_target_f32 (Finite (1 / 1048576)) (paddle_f32 tall_paddle)
     = \<lparr>f32_x = Finite 50, f32_y = Finite (1 / 1048576)\<rparr>"
    by (simp add: paddle_target_f32_def tall_paddle_def normaliseVersor_f32_down
        vec_scale_f32_def vec_add_f32_def round32_zero round32_one round32_numeral r)
  have "f32_x (position_f32 (Paddle_update_f32 (Finite (1 / 1048576)) (paddle_f32 tall_paddle))) = Finite 50"
    "f32_y (position_f32 (Paddle_update_f32 (Finite (1 / 1048576)) (paddle_f32 tall_paddle))) = Finite (1 / 1048576)"
    using round32_just_above_450
    by (simp_all add: Paddle_update_f32_position t axis_passes_f32_def f32_constants
        round32_numeral) (simp_all add: tall_paddle_def)
  then show "position_f32 (Paddle_update_f32 (Finite (1 / 1048576)) (paddle_f32 tall_paddle))
     = \<lparr>f32_x = Finite 50, f32_y = Finite (1 / 1048576)\<rparr>"
    by (cases "position_f32 (Paddle_update_f32 (Finite (1 / 1048576)) (paddle_f32 tall_paddle))") simp
  show "paddle_in_screen_f32 (Paddle_update_f32 (Finite (1 / 1048576)) (paddle_f32 tall_paddle))"
    using a by (rule Paddle_update_f32_in_screen)
  show "\<not> (1 / 1048576 + vec_y (size tall_paddle) \<le> real_of_int screenHeight)"
    by (simp add: tall_paddle_def screenHeight_def)
qed

section \<open>The input resolver\<close>

lemma key_codes_distinct:
  "KEY_UP \<noteq> KEY_DOWN" "KEY_UP \<noteq> - 1" "KEY_DOWN \<noteq> - 1"
  "KEY_DOWN \<noteq> KEY_UP" "- 1 \<noteq> KEY_UP" "- 1 \<noteq> KEY_DOWN"
  by (simp_all add: KEY_UP_def KEY_DOWN_def)

lemma resolved_keys_snoc:
  "resolved_keys a (fs @ [f]) =
     resolved_keys a fs @ [fst (getCurrentVerticalKey (fst f) (snd f) (active_after a fs))]"
  by (induction fs arbitrary: a) (simp_all add: Let_def split: prod.splits)

lemma active_after_snoc:
  "active_after a (fs @ [f]) = snd (getCurrentVerticalKey (fst f) (snd f) (active_after a fs))"
  by (induction fs arbitrary: a) simp_all

lemma held_run_snoc: "held_run (hs @ [h]) = (if h then Suc (held_run hs) else 0)"
  by (simp add: held_run_def)

lemma held_run_Nil: "held_run [] = 0"
  by (simp add: held_run_def)

lemma active_after_runs:
  "active_after (- 1) fs =
     (if held_run (map fst fs) = held_run (map snd fs) then - 1
      else if held_run (map snd fs) < held_run (map fst fs) then KEY_UP
      else KEY_DOWN)"
proof (induction fs rule: rev_induct)
  case Nil
  show ?case by (simp add: held_run_Nil)
next
  case (snoc f fs)
  obtain u d where f: "f = (u, d)" by (cases f)
  show ?case
    using snoc.IH
    by (cases u; cases d)
       (simp_all add: f active_after_snoc held_run_snoc getCurrentVerticalKey_def Let_def)
qed

text \<open>
  Claim C9. With no key held \<^verbatim>\<open>getCurrentVerticalKey\<close> returns \<open>-1\<close>; with one key held it
  returns that key and records it; with both held it returns the key that is not the
  recorded one and keeps the record. Over any sequence of frames from the start of the
  program, a frame with both keys held returns the key that has been held for the shorter
  time, the one pressed later (up when both were pressed in the same frame); a frame with
  one key held returns that key, which is the fall-back when the later key is released.
  Up, then up and down, then down alone, then nothing gives up, down, down, neutral.
\<close>

theorem getCurrentVerticalKey_latest_wins:
  "getCurrentVerticalKey False False a = (- 1, - 1)
   \<and> getCurrentVerticalKey True False a = (KEY_UP, KEY_UP)
   \<and> getCurrentVerticalKey False True a = (KEY_DOWN, KEY_DOWN)
   \<and> getCurrentVerticalKey True True a = (if a = KEY_UP then KEY_DOWN else KEY_UP, a)
   \<and> fst (getCurrentVerticalKey True True KEY_UP) = KEY_DOWN
   \<and> fst (getCurrentVerticalKey True True KEY_DOWN) = KEY_UP
   \<and> last (resolved_keys (- 1) (fs @ [(True, True)])) =
       (if held_run (map snd (fs @ [(True, True)])) < held_run (map fst (fs @ [(True, True)]))
        then KEY_DOWN else KEY_UP)
   \<and> resolved_keys (- 1) [(True, False), (True, True), (False, True), (False, False)] =
       [KEY_UP, KEY_DOWN, KEY_DOWN, - 1]
   \<and> KEY_UP \<noteq> KEY_DOWN \<and> KEY_UP \<noteq> - 1 \<and> KEY_DOWN \<noteq> - 1"
proof (intro conjI)
  show "last (resolved_keys (- 1) (fs @ [(True, True)])) =
       (if held_run (map snd (fs @ [(True, True)])) < held_run (map fst (fs @ [(True, True)]))
        then KEY_DOWN else KEY_UP)"
    by (simp add: resolved_keys_snoc held_run_snoc active_after_runs getCurrentVerticalKey_def
        key_codes_distinct)
qed (simp_all add: getCurrentVerticalKey_def Let_def key_codes_distinct)

end
